theory Spec2Isabelle
  imports Main "HOL-Library.Sublist"
begin

section \<open>The documentation build configuration of Lumino (docs/source/conf.py)\<close>

text \<open>
  The module reads the package manifest when it is loaded and offers a hook for the
  documentation generator that stages the API documentation and the examples in the
  output directory. Everything it does is an effect on the file system, on external
  processes or on the host application, so the embedding threads an explicit \<open>world\<close>
  through every call, records every library call in a trace, and returns exceptions as
  values.
\<close>

subsection \<open>Paths and the file system\<close>

text \<open>
  A path is the list of its components below the file system root; \<open>os.path.join\<close>
  with relative components appends them, \<open>os.pardir\<close> is the component \<open>..\<close>. The file
  system resolves a path lexically (there are no symbolic links in the model) and maps
  the resolved path to what is stored there.
\<close>

type_synonym path = "string list"

datatype node = File string | Dir

type_synonym filesystem = "path \<Rightarrow> node option"

definition pardir :: string where
  "pardir = ''..''"

definition osp_join :: "path \<Rightarrow> string list \<Rightarrow> path" where
  "osp_join p cs = p @ cs"

definition norm_step :: "path \<Rightarrow> string \<Rightarrow> path" where
  "norm_step acc c =
     (if c = ''..'' then butlast acc
      else if c = ''.'' \<or> c = [] then acc
      else acc @ [c])"

definition normpath :: "path \<Rightarrow> path" where
  "normpath p = foldl norm_step [] p"

definition render :: "path \<Rightarrow> string" where
  "render p = concat (map (\<lambda>c. ''/'' @ c) p)"

subsection \<open>Exceptions, library calls, the world\<close>

datatype error =
    TypeError
  | KeyError string
  | JSONDecodeError
  | OSError
  | CalledProcessError int
  | FileNotFoundError
  | FileExistsError
  | NotADirectoryError
  | IsADirectoryError
  | SameFileError
  | RecursionError

datatype event =
    Print string
  | CheckCall "string option list" path
  | Rmtree path
  | Copytree path path
  | Copy path path
  | AddCssFile string

record world =
  files :: filesystem
  trace :: "event list"
  css_files :: "string list"

datatype json =
    JNull
  | JBool bool
  | JInt int
  | JFloat string
  | JStr string
  | JList "json list"
  | JDict "(string \<times> json) list"

text \<open>
  What the module takes from its environment: the directory of conf.py, the search of
  an executable on the PATH, the outcome of an external command (its exit status and
  the file system it leaves; \<open>None\<close> when the process cannot be started), and the JSON
  parser of the standard library. The outcome of a search or of a command may depend
  on everything that happened before, so both read the whole world.
\<close>

record env =
  HERE :: path
  which :: "world \<Rightarrow> string \<Rightarrow> string option"
  run_process :: "world \<Rightarrow> string list \<Rightarrow> path \<Rightarrow> (int \<times> filesystem) option"
  json_loads :: "string \<Rightarrow> json option"

record app =
  outdir :: path

type_synonym 'a prog = "world \<Rightarrow> (error + 'a) \<times> world"

definition succeed :: "'a \<Rightarrow> 'a prog" where
  "succeed x w = (Inr x, w)"

definition bind_p :: "'a prog \<Rightarrow> ('a \<Rightarrow> 'b prog) \<Rightarrow> 'b prog" where
  "bind_p m f w = (case m w of (Inl e, w') \<Rightarrow> (Inl e, w') | (Inr x, w') \<Rightarrow> f x w')"

definition then_p :: "unit prog \<Rightarrow> 'b prog \<Rightarrow> 'b prog" where
  "then_p m k = bind_p m (\<lambda>_. k)"

fun for_each :: "'a list \<Rightarrow> ('a \<Rightarrow> unit prog) \<Rightarrow> unit prog" where
  "for_each [] body = succeed ()"
| "for_each (x # xs) body = then_p (body x) (for_each xs body)"

definition log_event :: "event \<Rightarrow> world \<Rightarrow> world" where
  "log_event ev w = w\<lparr>trace := trace w @ [ev]\<rparr>"

definition print :: "string \<Rightarrow> unit prog" where
  "print s w = (Inr (), log_event (Print s) w)"

definition osp_exists :: "path \<Rightarrow> bool prog" where
  "osp_exists p w = (Inr (files w (normpath p) \<noteq> None), w)"

definition shutil_which :: "env \<Rightarrow> string \<Rightarrow> (string option) prog" where
  "shutil_which E name w = (Inr (which E w name), w)"

text \<open>
  \<open>subprocess.check_call\<close>: an argument that is \<open>None\<close> is a TypeError before any process
  starts; a command that cannot be started is an OSError; any exit status but 0 is a
  CalledProcessError. The command may change the file system.
\<close>

definition check_call :: "env \<Rightarrow> string option list \<Rightarrow> path \<Rightarrow> unit prog" where
  "check_call E args cwd w =
     (let w1 = log_event (CheckCall args cwd) w in
      if None \<in> set args then (Inl TypeError, w1)
      else case run_process E w (map the args) cwd of
             None \<Rightarrow> (Inl OSError, w1)
           | Some (rc, fs') \<Rightarrow>
               (if rc = 0 then Inr () else Inl (CalledProcessError rc), w1\<lparr>files := fs'\<rparr>))"

fun is_file :: "node option \<Rightarrow> bool" where
  "is_file (Some (File c)) = True"
| "is_file _ = False"

text \<open>\<open>shutil.rmtree\<close>: the path must be a directory; it goes with everything below it.\<close>

definition shutil_rmtree :: "path \<Rightarrow> unit prog" where
  "shutil_rmtree p w =
     (let w1 = log_event (Rmtree p) w; d = normpath p in
      case files w d of
        None \<Rightarrow> (Inl FileNotFoundError, w1)
      | Some (File c) \<Rightarrow> (Inl NotADirectoryError, w1)
      | Some Dir \<Rightarrow> (Inr (), w1\<lparr>files := (\<lambda>q. if prefix d q then None else files w q)\<rparr>))"

text \<open>
  \<open>shutil.copytree\<close> (with its default \<open>dirs_exist_ok=False\<close>): the source must be a
  directory and the destination must not exist; missing parents of the destination are
  created, which fails when one of them is a regular file. The entries of the source
  are listed before the destination is created, so a destination directly inside the
  source receives the source as it was; a destination deeper inside an existing
  subdirectory of the source makes the copy descend into its own output without end,
  which Python ends with an exception (what it has written by then is not modelled).
\<close>

definition shutil_copytree :: "path \<Rightarrow> path \<Rightarrow> unit prog" where
  "shutil_copytree src dst w =
     (let w1 = log_event (Copytree src dst) w; s = normpath src; d = normpath dst in
      case files w s of
        None \<Rightarrow> (Inl FileNotFoundError, w1)
      | Some (File c) \<Rightarrow> (Inl NotADirectoryError, w1)
      | Some Dir \<Rightarrow>
          if files w d \<noteq> None then (Inl FileExistsError, w1)
          else if \<exists>q \<in> set (prefixes d). is_file (files w q)
            then (Inl NotADirectoryError, w1)
          else if prefix s d \<and> length s + 2 \<le> length d \<and> files w (take (Suc (length s)) d) \<noteq> None
            then (Inl RecursionError, w1)
          else (Inr (), w1\<lparr>files :=
                  (\<lambda>q. if prefix d q then files w (s @ drop (length d) q)
                       else if strict_prefix q d \<and> files w q = None then Some Dir
                       else files w q)\<rparr>))"

text \<open>
  \<open>shutil.copy\<close>: when the destination is a directory the file is copied into it under
  the source's base name; the source must be a regular file, different from the
  destination, and the directory receiving the copy must exist.
\<close>

definition copy_target :: "filesystem \<Rightarrow> path \<Rightarrow> path \<Rightarrow> path" where
  "copy_target fs s d0 = (if fs d0 = Some Dir \<and> s \<noteq> [] then d0 @ [last s] else d0)"

definition shutil_copy :: "path \<Rightarrow> path \<Rightarrow> unit prog" where
  "shutil_copy src dst w =
     (let w1 = log_event (Copy src dst) w; s = normpath src;
          d = copy_target (files w) s (normpath dst) in
      case files w s of
        None \<Rightarrow> (Inl FileNotFoundError, w1)
      | Some Dir \<Rightarrow> (Inl IsADirectoryError, w1)
      | Some (File c) \<Rightarrow>
          if s = d then (Inl SameFileError, w1)
          else if files w d = Some Dir then (Inl IsADirectoryError, w1)
          else if d = [] \<or> files w (butlast d) \<noteq> Some Dir then (Inl FileNotFoundError, w1)
          else (Inr (), w1\<lparr>files := (files w)(d \<mapsto> File c)\<rparr>))"

text \<open>\<open>app.add_css_file\<close> of the host application registers a stylesheet.\<close>

definition add_css_file :: "string \<Rightarrow> unit prog" where
  "add_css_file f w = (Inr (), (log_event (AddCssFile f) w)\<lparr>css_files := css_files w @ [f]\<rparr>)"

subsection \<open>The module\<close>

definition EXAMPLES :: "string list" where
  "EXAMPLES = [''accordionpanel'', ''datagrid'', ''dockpanel'']"

text \<open>
  Lines 77-80: the manifest is read as text, parsed, and subscripted with \<open>'version'\<close>.
  Subscripting anything but a dict with a string is a TypeError, a missing key a
  KeyError.
\<close>

definition read_text :: "path \<Rightarrow> filesystem \<Rightarrow> error + string" where
  "read_text p fs =
     (case fs (normpath p) of
        None \<Rightarrow> Inl FileNotFoundError
      | Some Dir \<Rightarrow> Inl IsADirectoryError
      | Some (File c) \<Rightarrow> Inr c)"

definition subscript :: "json \<Rightarrow> string \<Rightarrow> error + json" where
  "subscript d k =
     (case d of
        JDict kvs \<Rightarrow> (case map_of kvs k of None \<Rightarrow> Inl (KeyError k) | Some v \<Rightarrow> Inr v)
      | _ \<Rightarrow> Inl TypeError)"

definition package_json :: "env \<Rightarrow> path" where
  "package_json E = osp_join (HERE E) [''..'', ''..'', ''package.json'']"

definition data :: "env \<Rightarrow> filesystem \<Rightarrow> error + json" where
  "data E fs =
     (case read_text (package_json E) fs of
        Inl e \<Rightarrow> Inl e
      | Inr text \<Rightarrow> (case json_loads E text of None \<Rightarrow> Inl JSONDecodeError | Some j \<Rightarrow> Inr j))"

definition version :: "env \<Rightarrow> filesystem \<Rightarrow> error + json" where
  "version E fs = (case data E fs of Inl e \<Rightarrow> Inl e | Inr d \<Rightarrow> subscript d ''version'')"

definition release :: "env \<Rightarrow> filesystem \<Rightarrow> error + json" where
  "release E fs = version E fs"

text \<open>Lines 102-126.\<close>

definition build_api_docs :: "env \<Rightarrow> path \<Rightarrow> unit prog" where
  "build_api_docs E out_dir =
     (let docs = osp_join (HERE E) [pardir];
          root = osp_join docs [pardir];
          docs_api = osp_join docs [''source'', ''api''];
          api_index = osp_join docs_api [''algorithm'', ''index.html'']
      in
      then_p
        (bind_p (osp_exists api_index) (\<lambda>found.
           if found then print (''already have '' @ render api_index)
           else
             then_p (print ''Building lumino API docs'')
            (bind_p (shutil_which E ''npm'') (\<lambda>npm.
             then_p (check_call E ([npm] @ [Some ''install'', Some ''-g'', Some ''yarn'']) root)
            (bind_p (shutil_which E ''yarn'') (\<lambda>yarn.
             then_p (check_call E [yarn] root)
                    (check_call E ([yarn] @ [Some ''docs'']) root)))))))
       (let dest_dir = osp_join out_dir [''api'']
        in
        then_p (print (''Copying '' @ render docs_api @ '' -> '' @ render dest_dir))
       (then_p (bind_p (osp_exists dest_dir) (\<lambda>ex.
                  if ex then shutil_rmtree dest_dir else succeed ()))
       (then_p (shutil_copytree docs_api dest_dir)
               (shutil_copy (osp_join (HERE E) [''api_index.html''])
                            (osp_join dest_dir [''index.html'']))))))"

text \<open>Lines 129-162.\<close>

definition build_examples :: "env \<Rightarrow> path \<Rightarrow> unit prog" where
  "build_examples E out_dir =
     (let docs = osp_join (HERE E) [pardir];
          root = osp_join docs [pardir];
          examples_dir = osp_join docs [''source'', ''examples''];
          example_index = osp_join examples_dir [EXAMPLES ! 0, ''index.html'']
      in
      then_p
        (bind_p (osp_exists example_index) (\<lambda>found.
           if found then print ''already have examples''
           else
             then_p (print ''Building lumino examples'')
            (bind_p (shutil_which E ''npm'') (\<lambda>npm.
             then_p (check_call E ([npm] @ [Some ''install'', Some ''-g'', Some ''yarn'']) root)
            (bind_p (shutil_which E ''yarn'') (\<lambda>yarn.
             then_p (check_call E [yarn] root)
            (then_p (check_call E ([yarn] @ [Some ''build'']) root)
            (then_p (check_call E ([yarn] @ [Some ''build:examples'']) root)
                    (for_each EXAMPLES (\<lambda>example.
                       (let source = osp_join root [''examples'', ''example-'' @ example];
                            dest_dir = osp_join docs [''source'', ''examples'', example]
                        in
                        then_p (print (''Copying '' @ render source @ '' -> '' @ render dest_dir))
                       (then_p (bind_p (osp_exists dest_dir) (\<lambda>ex.
                                  if ex then shutil_rmtree dest_dir else succeed ()))
                               (shutil_copytree source dest_dir)))))))))))))
       (let dest_dir = osp_join out_dir [''examples'']
        in
        then_p (print (''Copying '' @ render examples_dir @ '' -> '' @ render dest_dir))
       (then_p (bind_p (osp_exists dest_dir) (\<lambda>ex.
                  if ex then shutil_rmtree dest_dir else succeed ()))
               (shutil_copytree examples_dir dest_dir))))"

text \<open>Lines 286-291: the hook that the documentation generator calls with its application.\<close>

definition setup_app :: "env \<Rightarrow> app \<Rightarrow> unit prog" where
  "setup_app E a =
     (let dest = osp_join (HERE E) [''changelog.md'']
      in
      then_p (shutil_copy (osp_join (HERE E) [''..'', ''..'', ''CHANGELOG.md'']) dest)
     (then_p (add_css_file ''css/custom.css'')
     (then_p (build_api_docs E (outdir a))
             (build_examples E (outdir a)))))"

subsection \<open>The paths the module computes\<close>

definition docs_dir :: "env \<Rightarrow> path" where
  "docs_dir E = osp_join (HERE E) [pardir]"

definition root_dir :: "env \<Rightarrow> path" where
  "root_dir E = osp_join (docs_dir E) [pardir]"

definition docs_api :: "env \<Rightarrow> path" where
  "docs_api E = osp_join (docs_dir E) [''source'', ''api'']"

definition api_index :: "env \<Rightarrow> path" where
  "api_index E = osp_join (docs_api E) [''algorithm'', ''index.html'']"

definition api_dest :: "path \<Rightarrow> path" where
  "api_dest out_dir = osp_join out_dir [''api'']"

definition api_page :: "env \<Rightarrow> path" where
  "api_page E = osp_join (HERE E) [''api_index.html'']"

definition examples_dir :: "env \<Rightarrow> path" where
  "examples_dir E = osp_join (docs_dir E) [''source'', ''examples'']"

definition example_index :: "env \<Rightarrow> path" where
  "example_index E = osp_join (examples_dir E) [''accordionpanel'', ''index.html'']"

definition examples_dest :: "path \<Rightarrow> path" where
  "examples_dest out_dir = osp_join out_dir [''examples'']"

definition example_source :: "env \<Rightarrow> string \<Rightarrow> path" where
  "example_source E example = osp_join (root_dir E) [''examples'', ''example-'' @ example]"

definition example_dest :: "env \<Rightarrow> string \<Rightarrow> path" where
  "example_dest E example = osp_join (docs_dir E) [''source'', ''examples'', example]"

definition changelog_source :: "env \<Rightarrow> path" where
  "changelog_source E = osp_join (HERE E) [''..'', ''..'', ''CHANGELOG.md'']"

definition changelog_dest :: "env \<Rightarrow> path" where
  "changelog_dest E = osp_join (HERE E) [''changelog.md'']"

subsection \<open>The blocks of the two build functions\<close>

text \<open>
  \<open>build_api_docs\<close> is the conditional build (lines 109-119) followed by the staging of
  the result (lines 121-126); \<open>build_examples\<close> is the conditional build with the copy
  of each example into the source tree (lines 136-156) followed by the staging (lines
  158-162). The blocks are named so that the state between them can be spoken about.
\<close>

definition remove_existing :: "path \<Rightarrow> unit prog" where
  "remove_existing d = bind_p (osp_exists d) (\<lambda>ex. if ex then shutil_rmtree d else succeed ())"

definition api_chain :: "env \<Rightarrow> unit prog" where
  "api_chain E =
     then_p (print ''Building lumino API docs'')
    (bind_p (shutil_which E ''npm'') (\<lambda>npm.
     then_p (check_call E [npm, Some ''install'', Some ''-g'', Some ''yarn''] (root_dir E))
    (bind_p (shutil_which E ''yarn'') (\<lambda>yarn.
     then_p (check_call E [yarn] (root_dir E))
            (check_call E [yarn, Some ''docs''] (root_dir E))))))"

definition api_build :: "env \<Rightarrow> unit prog" where
  "api_build E =
     bind_p (osp_exists (api_index E)) (\<lambda>found.
       if found then print (''already have '' @ render (api_index E)) else api_chain E)"

definition api_stage :: "env \<Rightarrow> path \<Rightarrow> unit prog" where
  "api_stage E out_dir =
     then_p (print (''Copying '' @ render (docs_api E) @ '' -> '' @ render (api_dest out_dir)))
    (then_p (remove_existing (api_dest out_dir))
    (then_p (shutil_copytree (docs_api E) (api_dest out_dir))
            (shutil_copy (api_page E) (osp_join (api_dest out_dir) [''index.html'']))))"

definition copy_example :: "env \<Rightarrow> string \<Rightarrow> unit prog" where
  "copy_example E example =
     then_p (print (''Copying '' @ render (example_source E example) @ '' -> ''
                      @ render (example_dest E example)))
    (then_p (remove_existing (example_dest E example))
            (shutil_copytree (example_source E example) (example_dest E example)))"

definition examples_chain :: "env \<Rightarrow> unit prog" where
  "examples_chain E =
     then_p (print ''Building lumino examples'')
    (bind_p (shutil_which E ''npm'') (\<lambda>npm.
     then_p (check_call E [npm, Some ''install'', Some ''-g'', Some ''yarn''] (root_dir E))
    (bind_p (shutil_which E ''yarn'') (\<lambda>yarn.
     then_p (check_call E [yarn] (root_dir E))
    (then_p (check_call E [yarn, Some ''build''] (root_dir E))
            (check_call E [yarn, Some ''build:examples''] (root_dir E)))))))"

definition examples_build :: "env \<Rightarrow> unit prog" where
  "examples_build E =
     bind_p (osp_exists (example_index E)) (\<lambda>found.
       if found then print ''already have examples''
       else then_p (examples_chain E) (for_each EXAMPLES (copy_example E)))"

definition examples_stage :: "env \<Rightarrow> path \<Rightarrow> unit prog" where
  "examples_stage E out_dir =
     then_p (print (''Copying '' @ render (examples_dir E) @ '' -> ''
                      @ render (examples_dest out_dir)))
    (then_p (remove_existing (examples_dest out_dir))
            (shutil_copytree (examples_dir E) (examples_dest out_dir)))"

subsection \<open>Reading the trace\<close>

definition new_events :: "world \<Rightarrow> world \<Rightarrow> event list" where
  "new_events w w' = drop (length (trace w)) (trace w')"

fun is_check_call :: "event \<Rightarrow> bool" where
  "is_check_call (CheckCall args cwd) = True"
| "is_check_call _ = False"

fun is_copy :: "event \<Rightarrow> bool" where
  "is_copy (Copytree src dst) = True"
| "is_copy (Copy src dst) = True"
| "is_copy _ = False"

text \<open>
  The name of the example that a call copies from the repository's example directory
  into the documentation source tree, if the call is such a copy.
\<close>

fun copied_example :: "env \<Rightarrow> event \<Rightarrow> string list" where
  "copied_example E (Copytree src dst) =
     (if dst \<noteq> [] \<and> dst = example_dest E (last dst) \<and> src = example_source E (last dst)
      then [last dst] else [])"
| "copied_example E _ = []"

definition copied_examples :: "env \<Rightarrow> event list \<Rightarrow> string list" where
  "copied_examples E evs = concat (map (copied_example E) evs)"

text \<open>The library call that an entry of the trace records.\<close>

fun perform :: "env \<Rightarrow> event \<Rightarrow> unit prog" where
  "perform E (Print s) = print s"
| "perform E (CheckCall args cwd) = check_call E args cwd"
| "perform E (Rmtree p) = shutil_rmtree p"
| "perform E (Copytree src dst) = shutil_copytree src dst"
| "perform E (Copy src dst) = shutil_copy src dst"
| "perform E (AddCssFile f) = add_css_file f"

text \<open>
  A run that raised was ended by one library call: the exception and the world it
  leaves are those of that call, made in a world reached from the initial one.
\<close>

definition ended_by_call :: "env \<Rightarrow> world \<Rightarrow> error \<Rightarrow> world \<Rightarrow> bool" where
  "ended_by_call E w e w' =
     (\<exists>w0 ev. prefix (trace w) (trace w0) \<and> perform E ev w0 = (Inl e, w'))"

text \<open>A program only appends to the trace, and every call it records satisfies \<open>P\<close>.\<close>

definition emits :: "(event \<Rightarrow> bool) \<Rightarrow> 'a prog \<Rightarrow> bool" where
  "emits P m = (\<forall>w. \<exists>evs. trace (snd (m w)) = trace w @ evs \<and> list_all P evs)"

text \<open>A program that raises is ended by one library call, and only appends to the trace.\<close>

definition propagates :: "env \<Rightarrow> 'a prog \<Rightarrow> bool" where
  "propagates E m =
     (emits (\<lambda>ev. True) m \<and> (\<forall>w e w'. m w = (Inl e, w') \<longrightarrow> ended_by_call E w e w'))"

text \<open>
  Making the calls of a list one after the other, in the world each one finds, and
  stopping at the first that raises: what a function that catches nothing does with the
  library calls it makes.
\<close>

fun replay :: "env \<Rightarrow> event list \<Rightarrow> unit prog" where
  "replay E [] = succeed ()"
| "replay E (ev # evs) = then_p (perform E ev) (replay E evs)"

text \<open>
  A program whose only effects are its library calls: the world changes by the recorded
  calls alone, and its outcome, up to the value it returns, is that of making them.
\<close>

definition calls_only :: "env \<Rightarrow> 'a prog \<Rightarrow> bool" where
  "calls_only E m =
     (\<forall>w. trace (snd (m w)) = trace w @ new_events w (snd (m w))
        \<and> replay E (new_events w (snd (m w))) w =
            (case fst (m w) of Inl e \<Rightarrow> Inl e | Inr x \<Rightarrow> Inr (), snd (m w)))"

text \<open>
  A function that catches no exception: its outcome is that of making, one after the
  other, the calls it records; so when a call it made raised \<open>e\<close> and left \<open>w'\<close>, in the
  world \<open>w0\<close> that the calls before it had reached, the function raises \<open>e\<close>, leaves \<open>w'\<close>
  and has made no call after it.
\<close>

definition uncaught :: "env \<Rightarrow> unit prog \<Rightarrow> bool" where
  "uncaught E f =
     (\<forall>w. f w = replay E (new_events w (snd (f w))) w
        \<and> (\<forall>pre ev post w0 e w'.
              new_events w (snd (f w)) = pre @ ev # post
              \<and> replay E pre w = (Inr (), w0)
              \<and> perform E ev w0 = (Inl e, w')
              \<longrightarrow> f w = (Inl e, w') \<and> post = []))"

text \<open>The copy of one example into the documentation source tree, as a call.\<close>

definition example_copy :: "env \<Rightarrow> string \<Rightarrow> event" where
  "example_copy E example = Copytree (example_source E example) (example_dest E example)"

subsection \<open>Concrete worlds\<close>

text \<open>
  A checkout in \<open>/repo\<close> with the output directory \<open>/out\<close>: once fresh, once with the API
  documentation and the first example already built and an older staging in \<open>/out/api\<close>,
  once with a generated tree that holds a directory named \<open>index.html\<close>. The tools of
  the fixture write the trees that the real ones generate.
\<close>

definition fs_fresh :: filesystem where
  \<open>fs_fresh = map_of
     [([], Dir),
      ([''repo''], Dir),
      ([''repo'', ''CHANGELOG.md''], File ''# Changelog''),
      ([''repo'', ''package.json''], File ''{"version": "2.0.0"}''),
      ([''repo'', ''docs''], Dir),
      ([''repo'', ''docs'', ''source''], Dir),
      ([''repo'', ''docs'', ''source'', ''api_index.html''], File ''<h1>API</h1>''),
      ([''out''], Dir)]\<close>

definition api_tree :: "(path \<times> node) list" where
  "api_tree =
     [([''repo'', ''docs'', ''source'', ''api''], Dir),
      ([''repo'', ''docs'', ''source'', ''api'', ''index.html''], File ''generated index''),
      ([''repo'', ''docs'', ''source'', ''api'', ''algorithm''], Dir),
      ([''repo'', ''docs'', ''source'', ''api'', ''algorithm'', ''index.html''], File ''algorithm'')]"

definition example_trees :: "(path \<times> node) list" where
  "example_trees =
     [([''repo'', ''examples''], Dir),
      ([''repo'', ''examples'', ''example-accordionpanel''], Dir),
      ([''repo'', ''examples'', ''example-accordionpanel'', ''index.html''], File ''accordion''),
      ([''repo'', ''examples'', ''example-datagrid''], Dir),
      ([''repo'', ''examples'', ''example-datagrid'', ''index.html''], File ''grid''),
      ([''repo'', ''examples'', ''example-dockpanel''], Dir),
      ([''repo'', ''examples'', ''example-dockpanel'', ''index.html''], File ''dock'')]"

definition fs_built :: filesystem where
  "fs_built = fs_fresh ++ map_of api_tree ++ map_of
     [([''repo'', ''docs'', ''source'', ''examples''], Dir),
      ([''repo'', ''docs'', ''source'', ''examples'', ''accordionpanel''], Dir),
      ([''repo'', ''docs'', ''source'', ''examples'', ''accordionpanel'', ''index.html''],
         File ''accordion''),
      ([''out'', ''api''], Dir),
      ([''out'', ''api'', ''stale.html''], File ''old'')]"

definition fs_index_dir :: filesystem where
  "fs_index_dir = fs_fresh ++ map_of
     [([''repo'', ''docs'', ''source'', ''api''], Dir),
      ([''repo'', ''docs'', ''source'', ''api'', ''index.html''], Dir),
      ([''repo'', ''docs'', ''source'', ''api'', ''algorithm''], Dir),
      ([''repo'', ''docs'', ''source'', ''api'', ''algorithm'', ''index.html''], File ''algorithm'')]"

definition tools :: "world \<Rightarrow> string list \<Rightarrow> path \<Rightarrow> (int \<times> filesystem) option" where
  "tools w args cwd =
     (if args = [''/usr/bin/yarn'', ''docs''] then Some (0, files w ++ map_of api_tree)
      else if args = [''/usr/bin/yarn'', ''build:examples'']
        then Some (0, files w ++ map_of example_trees)
      else Some (0, files w))"

definition parse0 :: "string \<Rightarrow> json option" where
  \<open>parse0 text =
     (if text = ''{"version": "2.0.0"}'' then Some (JDict [(''version'', JStr ''2.0.0'')])
      else if text = ''{}'' then Some (JDict [])
      else None)\<close>

definition E0 :: env where
  "E0 = \<lparr>HERE = [''repo'', ''docs'', ''source''],
         which = (\<lambda>w name. Some (''/usr/bin/'' @ name)),
         run_process = tools,
         json_loads = parse0\<rparr>"

definition E_no_tools :: env where
  "E_no_tools = \<lparr>HERE = [''repo'', ''docs'', ''source''],
         which = (\<lambda>w name. None),
         run_process = tools,
         json_loads = parse0\<rparr>"

definition tools_failing :: "world \<Rightarrow> string list \<Rightarrow> path \<Rightarrow> (int \<times> filesystem) option" where
  "tools_failing w args cwd =
     (if args = [''/usr/bin/yarn'', ''build''] then Some (1, files w) else tools w args cwd)"

definition E_failing :: env where
  "E_failing = \<lparr>HERE = [''repo'', ''docs'', ''source''],
         which = (\<lambda>w name. Some (''/usr/bin/'' @ name)),
         run_process = tools_failing,
         json_loads = parse0\<rparr>"

definition fs_no_version :: filesystem where
  "fs_no_version = fs_fresh([''repo'', ''package.json''] \<mapsto> File ''{}'')"

definition w_no_changelog :: world where
  "w_no_changelog =
     \<lparr>files = fs_fresh([''repo'', ''CHANGELOG.md''] := None), trace = [], css_files = []\<rparr>"

definition w_fresh :: world where
  "w_fresh = \<lparr>files = fs_fresh, trace = [], css_files = []\<rparr>"

definition w_built :: world where
  "w_built = \<lparr>files = fs_built, trace = [], css_files = []\<rparr>"

definition w_index_dir :: world where
  "w_index_dir = \<lparr>files = fs_index_dir, trace = [], css_files = []\<rparr>"

definition app0 :: app where
  "app0 = \<lparr>outdir = [''out'']\<rparr>"

section \<open>Verification\<close>

lemmas path_defs = docs_dir_def root_dir_def docs_api_def api_index_def api_dest_def api_page_def
  examples_dir_def example_index_def examples_dest_def example_source_def example_dest_def
  changelog_source_def changelog_dest_def

lemma build_api_docs_blocks: "build_api_docs E out_dir = then_p (api_build E) (api_stage E out_dir)"
  by (simp add: build_api_docs_def api_build_def api_stage_def api_chain_def remove_existing_def
      path_defs Let_def cong: if_cong)

lemma then_p_assoc: "then_p (then_p a b) c = then_p a (then_p b c)"
  by (rule ext) (simp add: then_p_def bind_p_def split: prod.splits sum.splits)

lemma then_bind_assoc: "then_p (bind_p m f) k = bind_p m (\<lambda>x. then_p (f x) k)"
  by (rule ext) (simp add: then_p_def bind_p_def split: prod.splits sum.splits)

lemma build_examples_blocks:
  "build_examples E out_dir = then_p (examples_build E) (examples_stage E out_dir)"
  by (simp add: build_examples_def examples_build_def examples_stage_def examples_chain_def
      copy_example_def remove_existing_def path_defs Let_def EXAMPLES_def
      then_p_assoc then_bind_assoc cong: if_cong)

lemma bind_p_alt:
  "bind_p m f w = (case fst (m w) of Inl e \<Rightarrow> (Inl e, snd (m w)) | Inr x \<Rightarrow> f x (snd (m w)))"
  by (simp add: bind_p_def split: prod.splits sum.splits)

lemma then_p_alt:
  "then_p m k w = (case fst (m w) of Inl e \<Rightarrow> (Inl e, snd (m w)) | Inr x \<Rightarrow> k (snd (m w)))"
  by (simp add: then_p_def bind_p_alt)

lemma then_p_ok: "fst (m w) = Inr () \<Longrightarrow> then_p m k w = k (snd (m w))"
  by (simp add: then_p_alt)

lemma pairI: "fst p = a \<Longrightarrow> p = (a, snd p)"
  by (simp add: prod_eq_iff)

lemma trace_log_event: "trace (log_event ev w) = trace w @ [ev]"
  by (simp add: log_event_def)

lemma files_log_event: "files (log_event ev w) = files w"
  by (simp add: log_event_def)

lemma trace_print: "trace (snd (print s w)) = trace w @ [Print s]"
  by (simp add: print_def trace_log_event)

lemma fst_print: "fst (print s w) = Inr ()"
  by (simp add: print_def)

lemma files_print: "files (snd (print s w)) = files w"
  by (simp add: print_def files_log_event)

lemma trace_check_call: "trace (snd (check_call E a c w)) = trace w @ [CheckCall a c]"
  by (simp add: check_call_def Let_def trace_log_event split: option.splits prod.splits)

lemma trace_rmtree: "trace (snd (shutil_rmtree p w)) = trace w @ [Rmtree p]"
  by (simp add: shutil_rmtree_def Let_def trace_log_event split: option.splits node.splits)

lemma trace_copytree: "trace (snd (shutil_copytree s d w)) = trace w @ [Copytree s d]"
  by (simp add: shutil_copytree_def Let_def trace_log_event split: option.splits node.splits)

lemma trace_copy: "trace (snd (shutil_copy s d w)) = trace w @ [Copy s d]"
  by (simp add: shutil_copy_def Let_def trace_log_event split: option.splits node.splits)

lemma trace_add_css_file: "trace (snd (add_css_file f w)) = trace w @ [AddCssFile f]"
  by (simp add: add_css_file_def trace_log_event)

lemma trace_remove_existing:
  "trace (snd (remove_existing d w)) =
     trace w @ (if files w (normpath d) \<noteq> None then [Rmtree d] else [])"
  by (simp add: remove_existing_def bind_p_def osp_exists_def succeed_def trace_rmtree
      split: prod.splits sum.splits)

lemmas trace_simps = trace_print trace_check_call trace_rmtree trace_copytree trace_copy
  trace_add_css_file trace_remove_existing

lemma api_build_skip:
  "files w (normpath (api_index E)) \<noteq> None \<Longrightarrow>
   api_build E w = print (''already have '' @ render (api_index E)) w"
  by (simp add: api_build_def bind_p_def osp_exists_def)

lemma api_build_run:
  "files w (normpath (api_index E)) = None \<Longrightarrow> api_build E w = api_chain E w"
  by (simp add: api_build_def bind_p_def osp_exists_def)

lemma new_events_eq: "trace w' = trace w @ evs \<Longrightarrow> new_events w w' = evs"
  by (simp add: new_events_def)

lemma trace_api_stage_ok:
  "fst (api_stage E out_dir w) = Inr () \<Longrightarrow>
   trace (snd (api_stage E out_dir w)) = trace w @
     [Print (''Copying '' @ render (docs_api E) @ '' -> '' @ render (api_dest out_dir))] @
     (if files w (normpath (api_dest out_dir)) \<noteq> None then [Rmtree (api_dest out_dir)] else []) @
     [Copytree (docs_api E) (api_dest out_dir),
      Copy (api_page E) (osp_join (api_dest out_dir) [''index.html''])]"
  by (simp add: api_stage_def then_p_alt trace_simps fst_print files_print split: sum.splits)

subsection \<open>What a program records\<close>

lemma emitsI: "(\<And>w. \<exists>evs. trace (snd (m w)) = trace w @ evs \<and> list_all P evs) \<Longrightarrow> emits P m"
  by (simp add: emits_def)

lemma emitsD: "emits P m \<Longrightarrow> \<exists>evs. trace (snd (m w)) = trace w @ evs \<and> list_all P evs"
  by (simp add: emits_def)

lemma emits_prefix: "emits P m \<Longrightarrow> prefix (trace w) (trace (snd (m w)))"
  using emitsD [of P m w] by (auto simp: prefix_def)

lemma emits_new_events: "emits P m \<Longrightarrow> list_all P (new_events w (snd (m w)))"
  using emitsD [of P m w] by (auto simp: new_events_def)

lemma emits_succeed: "emits P (succeed x)"
  by (simp add: emits_def succeed_def)

lemma emits_osp_exists: "emits P (osp_exists p)"
  by (simp add: emits_def osp_exists_def)

lemma emits_shutil_which: "emits P (shutil_which E name)"
  by (simp add: emits_def shutil_which_def)

lemma emits_print: "P (Print s) \<Longrightarrow> emits P (print s)"
  by (simp add: emits_def trace_print)

lemma emits_check_call: "P (CheckCall a c) \<Longrightarrow> emits P (check_call E a c)"
  by (simp add: emits_def trace_check_call)

lemma emits_rmtree: "P (Rmtree p) \<Longrightarrow> emits P (shutil_rmtree p)"
  by (simp add: emits_def trace_rmtree)

lemma emits_copytree: "P (Copytree s d) \<Longrightarrow> emits P (shutil_copytree s d)"
  by (simp add: emits_def trace_copytree)

lemma emits_copy: "P (Copy s d) \<Longrightarrow> emits P (shutil_copy s d)"
  by (simp add: emits_def trace_copy)

lemma emits_add_css_file: "P (AddCssFile f) \<Longrightarrow> emits P (add_css_file f)"
  by (simp add: emits_def trace_add_css_file)

lemma emits_bind:
  assumes "emits P m" and "\<And>x. emits P (f x)"
  shows "emits P (bind_p m f)"
proof (rule emitsI)
  fix w
  obtain evs where m: "trace (snd (m w)) = trace w @ evs" "list_all P evs"
    using emitsD [OF assms(1)] by blast
  show "\<exists>evs. trace (snd (bind_p m f w)) = trace w @ evs \<and> list_all P evs"
  proof (cases "fst (m w)")
    case (Inl e)
    then show ?thesis using m by (simp add: bind_p_alt)
  next
    case (Inr x)
    obtain evs' where "trace (snd (f x (snd (m w)))) = trace (snd (m w)) @ evs'" "list_all P evs'"
      using emitsD [OF assms(2)] by blast
    then show ?thesis using m Inr by (simp add: bind_p_alt)
  qed
qed

lemma emits_then: "emits P m \<Longrightarrow> emits P k \<Longrightarrow> emits P (then_p m k)"
  by (simp add: then_p_def emits_bind)

lemma emits_if: "emits P m \<Longrightarrow> emits P k \<Longrightarrow> emits P (if b then m else k)"
  by simp

lemma emits_for_each: "(\<And>x. x \<in> set xs \<Longrightarrow> emits P (body x)) \<Longrightarrow> emits P (for_each xs body)"
  by (induction xs) (simp_all add: emits_succeed emits_then)

lemma emits_remove_existing: "P (Rmtree d) \<Longrightarrow> emits P (remove_existing d)"
  by (simp add: remove_existing_def emits_bind emits_osp_exists emits_rmtree emits_succeed)

lemmas emits_intros = emits_succeed emits_osp_exists emits_shutil_which emits_print
  emits_check_call emits_rmtree emits_copytree emits_copy emits_add_css_file emits_bind
  emits_then emits_if emits_for_each emits_remove_existing

lemma emits_api_chain:
  "(\<And>s. P (Print s)) \<Longrightarrow> (\<And>a c. P (CheckCall a c)) \<Longrightarrow> emits P (api_chain E)"
  unfolding api_chain_def by (intro emits_intros) simp_all

lemma emits_api_build:
  "(\<And>s. P (Print s)) \<Longrightarrow> (\<And>a c. P (CheckCall a c)) \<Longrightarrow> emits P (api_build E)"
  unfolding api_build_def by (intro emits_intros emits_api_chain) simp_all

lemma emits_api_stage:
  "(\<And>s. P (Print s)) \<Longrightarrow> P (Rmtree (api_dest out_dir)) \<Longrightarrow>
   P (Copytree (docs_api E) (api_dest out_dir)) \<Longrightarrow>
   P (Copy (api_page E) (osp_join (api_dest out_dir) [''index.html''])) \<Longrightarrow>
   emits P (api_stage E out_dir)"
  unfolding api_stage_def by (intro emits_intros) simp_all

lemma emits_all_build_api_docs: "emits (\<lambda>ev. True) (build_api_docs E out_dir)"
  unfolding build_api_docs_blocks by (intro emits_intros emits_api_build emits_api_stage) simp_all

lemma new_events_trans:
  "prefix (trace w) (trace w1) \<Longrightarrow> prefix (trace w1) (trace w2) \<Longrightarrow>
   new_events w w2 = new_events w w1 @ new_events w1 w2"
  by (auto simp: new_events_def prefix_def)

lemma new_events_self: "new_events w w = []"
  by (simp add: new_events_def)

subsection \<open>The API documentation is not rebuilt when its marker exists\<close>

text \<open>
  C1. Whatever the output directory, when \<open>source/api/algorithm/index.html\<close> exists at
  the call, \<open>build_api_docs\<close> makes no call of \<open>check_call\<close> at all: the calls it adds
  to the trace contain no process invocation.
\<close>

theorem build_api_docs_skips_build:
  assumes "files w (normpath (api_index E)) \<noteq> None"
  shows "filter is_check_call (new_events w (snd (build_api_docs E out_dir w))) = []
       \<and> prefix (trace w) (trace (snd (build_api_docs E out_dir w)))"
proof -
  let ?w1 = "snd (print (''already have '' @ render (api_index E)) w)"
  have run: "build_api_docs E out_dir w = api_stage E out_dir ?w1"
    by (simp add: build_api_docs_blocks api_build_skip [OF assms] then_p_ok fst_print)
  have "emits (\<lambda>ev. \<not> is_check_call ev) (api_stage E out_dir)"
    by (rule emits_api_stage) simp_all
  then obtain evs where "trace (snd (api_stage E out_dir ?w1)) = trace ?w1 @ evs"
     "list_all (\<lambda>ev. \<not> is_check_call ev) evs"
    using emitsD by blast
  then have "filter is_check_call (new_events w (snd (build_api_docs E out_dir w))) = []"
    by (simp add: run new_events_def trace_print list_all_iff filter_empty_conv)
  then show ?thesis
    using emits_prefix [OF emits_all_build_api_docs] by simp
qed

lemmas fix_defs = E0_def E_no_tools_def E_failing_def tools_failing_def fs_no_version_def
  w_no_changelog_def w_built_def w_fresh_def w_index_dir_def fs_built_def
  fs_fresh_def fs_index_dir_def api_tree_def example_trees_def tools_def parse0_def app0_def

lemmas eval_path = path_defs normpath_def norm_step_def osp_join_def pardir_def

lemmas run_defs = build_api_docs_def build_examples_def setup_app_def api_build_def api_chain_def
  Let_def bind_p_def then_p_def succeed_def print_def osp_exists_def shutil_which_def
  check_call_def shutil_rmtree_def shutil_copytree_def shutil_copy_def copy_target_def
  add_css_file_def log_event_def normpath_def norm_step_def osp_join_def pardir_def render_def
  EXAMPLES_def path_defs

theorem build_api_docs_skips_build_witness:
  "files w_built (normpath (api_index E0)) \<noteq> None
   \<and> filter is_check_call (new_events w_built (snd (build_api_docs E0 [''out''] w_built))) = []"
proof -
  have "files w_built (normpath (api_index E0)) \<noteq> None"
    by (simp add: eval_path fix_defs)
  then show ?thesis
    using build_api_docs_skips_build [of w_built E0 "[''out'']"] by simp
qed

subsection \<open>The API documentation is built before anything is copied\<close>

lemma api_chain_run:
  fixes E w
  defines "w1 \<equiv> snd (print ''Building lumino API docs'' w)"
  defines "c1 \<equiv> check_call E [which E w1 ''npm'', Some ''install'', Some ''-g'', Some ''yarn'']
                   (root_dir E) w1"
  defines "c2 \<equiv> check_call E [which E (snd c1) ''yarn''] (root_dir E) (snd c1)"
  defines "c3 \<equiv> check_call E [which E (snd c1) ''yarn'', Some ''docs''] (root_dir E) (snd c2)"
  shows "api_chain E w =
     (if fst c1 \<noteq> Inr () then c1 else if fst c2 \<noteq> Inr () then c2 else c3)"
proof -
  have "api_chain E w =
     (case fst c1 of Inl e \<Rightarrow> (Inl e, snd c1)
      | Inr u \<Rightarrow> (case fst c2 of Inl e \<Rightarrow> (Inl e, snd c2) | Inr u \<Rightarrow> c3))"
    unfolding c1_def c2_def c3_def w1_def
    by (simp add: api_chain_def then_p_alt bind_p_alt shutil_which_def fst_print
        split: sum.splits)
  then show ?thesis
    by (auto simp: prod_eq_iff split: sum.splits)
qed

text \<open>
  C2. Whatever the output directory, when the marker is absent at the call,
  \<open>build_api_docs\<close> prints its message and then, in every run, calls \<open>check_call\<close> in
  the repository root with the \<open>npm\<close> that \<open>which\<close> finds and \<open>install -g yarn\<close>; if that
  returns it calls the \<open>yarn\<close> that \<open>which\<close> then finds, and if that returns it calls it
  with \<open>docs\<close>. A call that raises ends the function with its outcome. The staging runs
  only after the third call has returned; it makes no \<open>check_call\<close>, and the copies of
  the run, the \<open>copytree\<close> of the generated tree and the copy of the index page when the
  staging returns, are among its calls, so every copy comes after the three commands.
\<close>

theorem build_api_docs_builds_before_copy:
  assumes "files w (normpath (api_index E)) = None"
  shows "(let w1 = snd (print ''Building lumino API docs'' w);
              npm = which E w1 ''npm'';
              c1 = check_call E [npm, Some ''install'', Some ''-g'', Some ''yarn''] (root_dir E) w1;
              yarn = which E (snd c1) ''yarn'';
              c2 = check_call E [yarn] (root_dir E) (snd c1);
              c3 = check_call E [yarn, Some ''docs''] (root_dir E) (snd c2);
              s = api_stage E out_dir (snd c3)
          in new_events w (snd (build_api_docs E out_dir w)) =
               Print ''Building lumino API docs'' #
               CheckCall [npm, Some ''install'', Some ''-g'', Some ''yarn''] (root_dir E) #
               (if fst c1 = Inr () then
                  CheckCall [yarn] (root_dir E) #
                  (if fst c2 = Inr () then
                     CheckCall [yarn, Some ''docs''] (root_dir E) #
                     (if fst c3 = Inr () then new_events (snd c3) (snd s) else [])
                   else [])
                else [])
            \<and> build_api_docs E out_dir w =
                (if fst c1 \<noteq> Inr () then c1 else if fst c2 \<noteq> Inr () then c2
                 else if fst c3 \<noteq> Inr () then c3 else s)
            \<and> filter is_check_call (new_events (snd c3) (snd s)) = []
            \<and> (fst s = Inr () \<longrightarrow>
                 filter is_copy (new_events (snd c3) (snd s)) =
                   [Copytree (docs_api E) (api_dest out_dir),
                    Copy (api_page E) (osp_join (api_dest out_dir) [''index.html''])]))"
proof -
  let ?w1 = "snd (print ''Building lumino API docs'' w)"
  let ?npm = "which E ?w1 ''npm''"
  let ?c1 = "check_call E [?npm, Some ''install'', Some ''-g'', Some ''yarn''] (root_dir E) ?w1"
  let ?yarn = "which E (snd ?c1) ''yarn''"
  let ?c2 = "check_call E [?yarn] (root_dir E) (snd ?c1)"
  let ?c3 = "check_call E [?yarn, Some ''docs''] (root_dir E) (snd ?c2)"
  let ?s = "api_stage E out_dir (snd ?c3)"
  have chain: "api_build E w =
      (if fst ?c1 \<noteq> Inr () then ?c1 else if fst ?c2 \<noteq> Inr () then ?c2 else ?c3)"
    using api_chain_run [of E w] by (simp add: api_build_run [OF assms])
  have run: "build_api_docs E out_dir w =
      (if fst ?c1 \<noteq> Inr () then ?c1 else if fst ?c2 \<noteq> Inr () then ?c2
       else if fst ?c3 \<noteq> Inr () then ?c3 else ?s)"
    by (auto simp: build_api_docs_blocks then_p_alt chain prod_eq_iff split: sum.splits)
  have t1: "trace (snd ?c1) = trace w @
      [Print ''Building lumino API docs'',
       CheckCall [?npm, Some ''install'', Some ''-g'', Some ''yarn''] (root_dir E)]"
    by (simp add: trace_check_call trace_print)
  have t2: "trace (snd ?c2) = trace (snd ?c1) @ [CheckCall [?yarn] (root_dir E)]"
    by (rule trace_check_call)
  have t3: "trace (snd ?c3) = trace (snd ?c2) @ [CheckCall [?yarn, Some ''docs''] (root_dir E)]"
    by (rule trace_check_call)
  have "emits (\<lambda>ev. \<not> is_check_call ev) (api_stage E out_dir)"
    by (rule emits_api_stage) simp_all
  then obtain evs where ts: "trace (snd ?s) = trace (snd ?c3) @ evs"
      and nc: "list_all (\<lambda>ev. \<not> is_check_call ev) evs"
    using emitsD by blast
  have ns: "new_events (snd ?c3) (snd ?s) = evs"
    by (rule new_events_eq [OF ts])
  have new: "new_events w (snd (build_api_docs E out_dir w)) =
               Print ''Building lumino API docs'' #
               CheckCall [?npm, Some ''install'', Some ''-g'', Some ''yarn''] (root_dir E) #
               (if fst ?c1 = Inr () then
                  CheckCall [?yarn] (root_dir E) #
                  (if fst ?c2 = Inr () then
                     CheckCall [?yarn, Some ''docs''] (root_dir E) #
                     (if fst ?c3 = Inr () then new_events (snd ?c3) (snd ?s) else [])
                   else [])
                else [])"
    unfolding ns by (simp add: run new_events_def t1 t2 t3 ts)
  have calls: "filter is_check_call (new_events (snd ?c3) (snd ?s)) = []"
    unfolding ns using nc by (simp add: list_all_iff filter_empty_conv)
  have copies: "filter is_copy (new_events (snd ?c3) (snd ?s)) =
                   [Copytree (docs_api E) (api_dest out_dir),
                    Copy (api_page E) (osp_join (api_dest out_dir) [''index.html''])]"
    if "fst ?s = Inr ()"
    using trace_api_stage_ok [OF that] by (simp add: new_events_def)
  show ?thesis
    unfolding Let_def using new run calls copies by blast
qed

theorem build_api_docs_builds_before_copy_witness:
  "files w_fresh (normpath (api_index E0)) = None
   \<and> fst (build_api_docs E0 [''out''] w_fresh) = Inr ()
   \<and> new_events w_fresh (snd (build_api_docs E0 [''out''] w_fresh)) =
       [Print ''Building lumino API docs'',
        CheckCall [Some ''/usr/bin/npm'', Some ''install'', Some ''-g'', Some ''yarn'']
          [''repo'', ''docs'', ''source'', ''..'', ''..''],
        CheckCall [Some ''/usr/bin/yarn''] [''repo'', ''docs'', ''source'', ''..'', ''..''],
        CheckCall [Some ''/usr/bin/yarn'', Some ''docs'']
          [''repo'', ''docs'', ''source'', ''..'', ''..''],
        Print ''Copying /repo/docs/source/../source/api -> /out/api'',
        Copytree [''repo'', ''docs'', ''source'', ''..'', ''source'', ''api''] [''out'', ''api''],
        Copy [''repo'', ''docs'', ''source'', ''api_index.html'']
          [''out'', ''api'', ''index.html'']]"
proof -
  have absent: "files w_fresh (normpath (api_index E0)) = None"
    by (simp add: eval_path fix_defs)
  have ok: "fst (build_api_docs E0 [''out''] w_fresh) = Inr ()"
    by (simp add: run_defs fix_defs)
  have tr: "trace (snd (build_api_docs E0 [''out''] w_fresh)) =
       [Print ''Building lumino API docs'',
        CheckCall [Some ''/usr/bin/npm'', Some ''install'', Some ''-g'', Some ''yarn'']
          [''repo'', ''docs'', ''source'', ''..'', ''..''],
        CheckCall [Some ''/usr/bin/yarn''] [''repo'', ''docs'', ''source'', ''..'', ''..''],
        CheckCall [Some ''/usr/bin/yarn'', Some ''docs'']
          [''repo'', ''docs'', ''source'', ''..'', ''..''],
        Print ''Copying /repo/docs/source/../source/api -> /out/api'',
        Copytree [''repo'', ''docs'', ''source'', ''..'', ''source'', ''api''] [''out'', ''api''],
        Copy [''repo'', ''docs'', ''source'', ''api_index.html'']
          [''out'', ''api'', ''index.html'']]"
    by (simp add: run_defs fix_defs)
  have "trace w_fresh = []"
    by (simp add: w_fresh_def)
  then have new: "new_events w_fresh (snd (build_api_docs E0 [''out''] w_fresh)) =
      trace (snd (build_api_docs E0 [''out''] w_fresh))"
    by (simp add: new_events_def)
  show ?thesis
    using build_api_docs_builds_before_copy [OF absent, of "[''out'']"] absent ok tr new by (simp only:)
qed

subsection \<open>The effect of the library calls on the files\<close>

lemma normpath_snoc:
  "c \<noteq> ''..'' \<Longrightarrow> c \<noteq> ''.'' \<Longrightarrow> c \<noteq> [] \<Longrightarrow> normpath (p @ [c]) = normpath p @ [c]"
  by (simp add: normpath_def norm_step_def)

lemma normpath_api_dest: "normpath (api_dest out_dir) = normpath out_dir @ [''api'']"
  by (simp add: api_dest_def osp_join_def normpath_snoc)

lemma normpath_api_dest_index:
  "normpath (osp_join (api_dest out_dir) [''index.html'']) =
     normpath (api_dest out_dir) @ [''index.html'']"
  by (simp add: osp_join_def normpath_snoc)

lemma remove_existing_keeps:
  "fst (remove_existing d w) = Inr () \<Longrightarrow> files (snd (remove_existing d w)) p = Some n \<Longrightarrow>
   files w p = Some n"
  by (auto simp: remove_existing_def bind_p_def osp_exists_def succeed_def shutil_rmtree_def
      Let_def log_event_def split: option.splits node.splits if_splits)

lemma copytree_ok:
  assumes "fst (shutil_copytree src dst w) = Inr ()"
  shows "files (snd (shutil_copytree src dst w)) (normpath dst @ q) = files w (normpath src @ q)"
proof (cases "files w (normpath src)")
  case None
  then show ?thesis using assms by (simp add: shutil_copytree_def Let_def)
next
  case (Some n)
  show ?thesis
  proof (cases n)
    case (File c)
    then show ?thesis using assms Some by (simp add: shutil_copytree_def Let_def)
  next
    case Dir
    then show ?thesis using assms Some
      by (auto simp: shutil_copytree_def Let_def log_event_def split: if_splits)
  qed
qed

lemma copy_ok:
  assumes "fst (shutil_copy src dst w) = Inr ()"
  shows "\<exists>c. files w (normpath src) = Some (File c)
           \<and> copy_target (files w) (normpath src) (normpath dst) \<noteq> normpath src
           \<and> files (snd (shutil_copy src dst w)) =
               (files w)(copy_target (files w) (normpath src) (normpath dst) \<mapsto> File c)"
proof (cases "files w (normpath src)")
  case None
  then show ?thesis using assms by (simp add: shutil_copy_def Let_def)
next
  case (Some n)
  show ?thesis
  proof (cases n)
    case (File c)
    then show ?thesis using assms Some
      by (simp add: shutil_copy_def Let_def log_event_def split: if_splits)
  next
    case Dir
    then show ?thesis using assms Some by (simp add: shutil_copy_def Let_def)
  qed
qed

lemma api_stage_steps:
  assumes "fst (api_stage E out_dir w) = Inr ()"
  defines "wp \<equiv> snd (print (''Copying '' @ render (docs_api E) @ '' -> ''
                              @ render (api_dest out_dir)) w)"
  defines "wr \<equiv> snd (remove_existing (api_dest out_dir) wp)"
  defines "wc \<equiv> snd (shutil_copytree (docs_api E) (api_dest out_dir) wr)"
  shows "fst (remove_existing (api_dest out_dir) wp) = Inr ()"
    and "fst (shutil_copytree (docs_api E) (api_dest out_dir) wr) = Inr ()"
    and "fst (shutil_copy (api_page E) (osp_join (api_dest out_dir) [''index.html'']) wc) = Inr ()"
    and "snd (api_stage E out_dir w) =
           snd (shutil_copy (api_page E) (osp_join (api_dest out_dir) [''index.html'']) wc)"
  using assms(1) unfolding wp_def wr_def wc_def
  by (simp_all add: api_stage_def then_p_alt fst_print split: sum.splits)


lemma api_stage_index:
  assumes ok: "fst (api_stage E out_dir w) = Inr ()"
    and nd: "files w (normpath (docs_api E) @ [''index.html'']) \<noteq> Some Dir"
  shows "is_file (files (snd (api_stage E out_dir w)) (normpath (api_dest out_dir) @ [''index.html'']))"
    and "files (snd (api_stage E out_dir w)) (normpath (api_dest out_dir) @ [''index.html'']) =
         files (snd (api_stage E out_dir w)) (normpath (api_page E))"
proof -
  let ?D = "normpath (api_dest out_dir)"
  let ?wp = "snd (print (''Copying '' @ render (docs_api E) @ '' -> ''
                              @ render (api_dest out_dir)) w)"
  let ?wr = "snd (remove_existing (api_dest out_dir) ?wp)"
  let ?wc = "snd (shutil_copytree (docs_api E) (api_dest out_dir) ?wr)"
  let ?t = "copy_target (files ?wc) (normpath (api_page E))
              (normpath (osp_join (api_dest out_dir) [''index.html'']))"
  note steps = api_stage_steps [OF ok]
  obtain c where c: "files ?wc (normpath (api_page E)) = Some (File c)"
      "?t \<noteq> normpath (api_page E)"
      "files (snd (api_stage E out_dir w)) = (files ?wc)(?t \<mapsto> File c)"
    using copy_ok [OF steps(3)] steps(4) by auto
  have "files ?wc (?D @ [''index.html'']) \<noteq> Some Dir"
  proof
    assume a: "files ?wc (?D @ [''index.html'']) = Some Dir"
    have "files ?wc (?D @ [''index.html'']) = files ?wr (normpath (docs_api E) @ [''index.html''])"
      by (rule copytree_ok [OF steps(2)])
    with a have "files ?wr (normpath (docs_api E) @ [''index.html'']) = Some Dir"
      by (simp only:)
    then have "files ?wp (normpath (docs_api E) @ [''index.html'']) = Some Dir"
      by (rule remove_existing_keeps [OF steps(1)])
    then show False using nd by (simp add: files_print)
  qed
  then have t: "?t = ?D @ [''index.html'']"
    by (simp add: copy_target_def normpath_api_dest_index)
  show "is_file (files (snd (api_stage E out_dir w)) (?D @ [''index.html'']))"
    using c(3) t by simp
  show "files (snd (api_stage E out_dir w)) (?D @ [''index.html'']) =
         files (snd (api_stage E out_dir w)) (normpath (api_page E))"
    using c t by simp
qed

lemma normpath_api_page: "normpath (api_page E) = normpath (HERE E) @ [''api_index.html'']"
  by (simp add: api_page_def osp_join_def normpath_snoc)

lemma api_stage_index_cases:
  assumes ok: "fst (api_stage E out_dir w) = Inr ()"
  defines "F \<equiv> files (snd (api_stage E out_dir w))"
  defines "idx \<equiv> normpath (api_dest out_dir) @ [''index.html'']"
  shows "(is_file (F idx) \<and> F idx = F (normpath (api_page E)))
       \<or> (F idx = Some Dir \<and> is_file (F (idx @ [''api_index.html'']))
           \<and> F (idx @ [''api_index.html'']) = F (normpath (api_page E)))"
proof -
  let ?wp = "snd (print (''Copying '' @ render (docs_api E) @ '' -> ''
                              @ render (api_dest out_dir)) w)"
  let ?wr = "snd (remove_existing (api_dest out_dir) ?wp)"
  let ?wc = "snd (shutil_copytree (docs_api E) (api_dest out_dir) ?wr)"
  let ?s = "normpath (api_page E)"
  let ?t = "copy_target (files ?wc) ?s (normpath (osp_join (api_dest out_dir) [''index.html'']))"
  note steps = api_stage_steps [OF ok]
  obtain c where c: "files ?wc ?s = Some (File c)" "?t \<noteq> ?s" "F = (files ?wc)(?t \<mapsto> File c)"
    using copy_ok [OF steps(3)] steps(4) unfolding F_def by auto
  show ?thesis
  proof (cases "files ?wc idx = Some Dir")
    case True
    then have t: "?t = idx @ [''api_index.html'']"
      by (simp add: copy_target_def normpath_api_dest_index idx_def normpath_api_page)
    have "F idx = Some Dir"
      using True c(3) t by simp
    moreover have "F (idx @ [''api_index.html'']) = Some (File c)" "F ?s = Some (File c)"
      using c t by simp_all
    ultimately show ?thesis by simp
  next
    case False
    then have t: "?t = idx"
      by (simp add: copy_target_def normpath_api_dest_index idx_def)
    have "F idx = Some (File c)" "F ?s = Some (File c)"
      using c t by simp_all
    then show ?thesis by simp
  qed
qed

lemma build_api_docs_ok:
  assumes "build_api_docs E out_dir w = (Inr (), w')"
  shows "fst (api_build E w) = Inr ()"
    and "api_stage E out_dir (snd (api_build E w)) = (Inr (), w')"
  using assms by (auto simp: build_api_docs_blocks then_p_alt split: sum.splits)


lemma emits_all_api_build: "emits (\<lambda>ev. True) (api_build E)"
  by (rule emits_api_build) simp_all

lemma build_api_docs_suffix:
  assumes "build_api_docs E out_dir w = (Inr (), w')"
  shows "\<exists>pre. new_events w w' = pre @
     (if files (snd (api_build E w)) (normpath (api_dest out_dir)) \<noteq> None
      then [Rmtree (api_dest out_dir)] else []) @
     [Copytree (docs_api E) (api_dest out_dir),
      Copy (api_page E) (osp_join (api_dest out_dir) [''index.html''])]"
proof -
  let ?w1 = "snd (api_build E w)"
  note ok = build_api_docs_ok [OF assms]
  from ok(2) have "fst (api_stage E out_dir ?w1) = Inr ()" "snd (api_stage E out_dir ?w1) = w'"
    by simp_all
  from trace_api_stage_ok [OF this(1)] this(2)
  have "trace w' = trace ?w1 @
     [Print (''Copying '' @ render (docs_api E) @ '' -> '' @ render (api_dest out_dir))] @
     (if files ?w1 (normpath (api_dest out_dir)) \<noteq> None then [Rmtree (api_dest out_dir)] else []) @
     [Copytree (docs_api E) (api_dest out_dir),
      Copy (api_page E) (osp_join (api_dest out_dir) [''index.html''])]"
    by simp
  moreover obtain evs where "trace ?w1 = trace w @ evs"
    using emitsD [OF emits_all_api_build] by blast
  ultimately show ?thesis
    by (simp add: new_events_def)
qed

lemma run_examples_fresh: "fst (build_examples E0 [''out''] w_fresh) = Inr ()"
  by (simp add: run_defs fix_defs)

lemma run_examples_built: "fst (build_examples E0 [''out''] w_built) = Inr ()"
  by (simp add: run_defs fix_defs)

subsection \<open>The staged API documentation holds nothing stale\<close>



subsection \<open>The index page is overlaid on the staged tree\<close>

text \<open>
  C9, as stated, fails: \<open>shutil.copy\<close> copies into its destination when that is a
  directory. With a generated tree that holds a directory named \<open>index.html\<close>, the run
  returns, \<open>out/api/index.html\<close> is still that directory, and the fixed page lies inside
  it as \<open>api_index.html\<close>.
\<close>

theorem build_api_docs_index_directory_counterexample:
  "fst (build_api_docs E0 [''out''] w_index_dir) = Inr ()
   \<and> files w_index_dir [''repo'', ''docs'', ''source'', ''api_index.html''] = Some (File ''<h1>API</h1>'')
   \<and> files (snd (build_api_docs E0 [''out''] w_index_dir)) [''out'', ''api'', ''index.html'']
       = Some Dir
   \<and> files (snd (build_api_docs E0 [''out''] w_index_dir))
         [''out'', ''api'', ''index.html'', ''api_index.html'']
       = Some (File ''<h1>API</h1>'')"
  by (simp add: run_defs fix_defs)

text \<open>
  C9, amended. In every invocation of \<open>build_api_docs\<close> that returns, the last two calls
  are the \<open>copytree\<close> of the generated tree into \<open>out_dir/api\<close> and then the copy of
  \<open>api_index.html\<close> onto \<open>out_dir/api/index.html\<close>. When the generated tree, as the build
  step left it, holds no directory named \<open>index.html\<close>, the final
  \<open>out_dir/api/index.html\<close> is a regular file with the content of the fixed page,
  whether the generated tree holds a file \<open>index.html\<close> or none. In every case the final
  \<open>out_dir/api/index.html\<close> is either that regular file or a directory that holds the
  fixed page as \<open>api_index.html\<close>.
\<close>

theorem build_api_docs_overlays_index:
  assumes "build_api_docs E out_dir w = (Inr (), w')"
  shows "(\<exists>pre. new_events w w' = pre @
             [Copytree (docs_api E) (api_dest out_dir),
              Copy (api_page E) (osp_join (api_dest out_dir) [''index.html''])])
       \<and> (files (snd (api_build E w)) (normpath (docs_api E) @ [''index.html'']) \<noteq> Some Dir \<longrightarrow>
            is_file (files w' (normpath (api_dest out_dir) @ [''index.html'']))
            \<and> files w' (normpath (api_dest out_dir) @ [''index.html''])
                = files w' (normpath (api_page E)))
       \<and> ((is_file (files w' (normpath (api_dest out_dir) @ [''index.html'']))
             \<and> files w' (normpath (api_dest out_dir) @ [''index.html''])
                 = files w' (normpath (api_page E)))
          \<or> (files w' (normpath (api_dest out_dir) @ [''index.html'']) = Some Dir
             \<and> is_file (files w' (normpath (api_dest out_dir) @ [''index.html'', ''api_index.html'']))
             \<and> files w' (normpath (api_dest out_dir) @ [''index.html'', ''api_index.html''])
                 = files w' (normpath (api_page E))))"
proof (intro conjI impI)
  note ok = build_api_docs_ok [OF assms]
  from ok(2) have stage: "fst (api_stage E out_dir (snd (api_build E w))) = Inr ()"
      "snd (api_stage E out_dir (snd (api_build E w))) = w'"
    by simp_all
  obtain pre where "new_events w w' = pre @
     (if files (snd (api_build E w)) (normpath (api_dest out_dir)) \<noteq> None
      then [Rmtree (api_dest out_dir)] else []) @
     [Copytree (docs_api E) (api_dest out_dir),
      Copy (api_page E) (osp_join (api_dest out_dir) [''index.html''])]"
    using build_api_docs_suffix [OF assms] by blast
  then show "\<exists>pre. new_events w w' = pre @
             [Copytree (docs_api E) (api_dest out_dir),
              Copy (api_page E) (osp_join (api_dest out_dir) [''index.html''])]"
    by (metis append.assoc)
  show "(is_file (files w' (normpath (api_dest out_dir) @ [''index.html'']))
             \<and> files w' (normpath (api_dest out_dir) @ [''index.html''])
                 = files w' (normpath (api_page E)))
          \<or> (files w' (normpath (api_dest out_dir) @ [''index.html'']) = Some Dir
             \<and> is_file (files w' (normpath (api_dest out_dir) @ [''index.html'', ''api_index.html'']))
             \<and> files w' (normpath (api_dest out_dir) @ [''index.html'', ''api_index.html''])
                 = files w' (normpath (api_page E)))"
    using api_stage_index_cases [OF stage(1)] stage(2) by simp
  assume nd: "files (snd (api_build E w)) (normpath (docs_api E) @ [''index.html'']) \<noteq> Some Dir"
  show "is_file (files w' (normpath (api_dest out_dir) @ [''index.html'']))"
    using api_stage_index(1) [OF stage(1) nd] stage(2) by simp
  show "files w' (normpath (api_dest out_dir) @ [''index.html''])
                = files w' (normpath (api_page E))"
    using api_stage_index(2) [OF stage(1) nd] stage(2) by simp
qed

theorem build_api_docs_overlays_index_witness:
  "build_api_docs E0 [''out''] w_built = (Inr (), snd (build_api_docs E0 [''out''] w_built))
   \<and> files (snd (api_build E0 w_built)) (normpath (docs_api E0) @ [''index.html''])
       = Some (File ''generated index'')
   \<and> (\<exists>pre. new_events w_built (snd (build_api_docs E0 [''out''] w_built)) = pre @
          [Copytree (docs_api E0) (api_dest [''out'']),
           Copy (api_page E0) (osp_join (api_dest [''out'']) [''index.html''])])
   \<and> is_file (files (snd (build_api_docs E0 [''out''] w_built))
                (normpath (api_dest [''out'']) @ [''index.html'']))
   \<and> files (snd (build_api_docs E0 [''out''] w_built)) (normpath (api_dest [''out'']) @ [''index.html''])
       = files (snd (build_api_docs E0 [''out''] w_built)) (normpath (api_page E0))
   \<and> build_api_docs E0 [''out''] w_index_dir
       = (Inr (), snd (build_api_docs E0 [''out''] w_index_dir))
   \<and> (\<exists>pre. new_events w_index_dir (snd (build_api_docs E0 [''out''] w_index_dir)) = pre @
          [Copytree (docs_api E0) (api_dest [''out'']),
           Copy (api_page E0) (osp_join (api_dest [''out'']) [''index.html''])])"
proof -
  let ?r = "build_api_docs E0 [''out''] w_built"
  let ?d = "build_api_docs E0 [''out''] w_index_dir"
  have run: "?r = (Inr (), snd ?r)"
    by (rule pairI) (simp add: run_defs fix_defs)
  have rund: "?d = (Inr (), snd ?d)"
    by (rule pairI) (simp add: run_defs fix_defs)
  have gen: "files (snd (api_build E0 w_built)) (normpath (docs_api E0) @ [''index.html''])
       = Some (File ''generated index'')"
    by (simp add: run_defs fix_defs)
  then have "files (snd (api_build E0 w_built)) (normpath (docs_api E0) @ [''index.html''])
       \<noteq> Some Dir"
    by simp
  with build_api_docs_overlays_index [OF run] build_api_docs_overlays_index [OF rund] run rund gen show ?thesis
    by blast
qed

subsection \<open>The version is the manifest's field\<close>

text \<open>
  C6. The module-level \<open>version\<close> (and \<open>release\<close>, assigned with it) has the value \<open>v\<close>
  exactly when the manifest \<open>package.json\<close> two levels above conf.py is a file whose
  text the JSON parser reads as an object that holds \<open>v\<close> under the key \<open>version\<close>.
\<close>

theorem version_is_manifest_field:
  "(version E fs = Inr v) =
     (\<exists>text kvs. fs (normpath (package_json E)) = Some (File text)
                \<and> json_loads E text = Some (JDict kvs)
                \<and> map_of kvs ''version'' = Some v)
   \<and> release E fs = version E fs"
  by (auto simp: version_def release_def data_def read_text_def subscript_def
      split: option.splits node.splits sum.splits json.splits)

theorem version_is_manifest_field_witness:
  "version E0 fs_fresh = Inr (JStr ''2.0.0'') \<and> release E0 fs_fresh = Inr (JStr ''2.0.0'')"
proof -
  have "\<exists>text kvs. fs_fresh (normpath (package_json E0)) = Some (File text)
                \<and> json_loads E0 text = Some (JDict kvs)
                \<and> map_of kvs ''version'' = Some (JStr ''2.0.0'')"
    by (simp add: package_json_def eval_path fix_defs)
  then show ?thesis
    using version_is_manifest_field [of E0 fs_fresh "JStr ''2.0.0''"] by simp
qed

subsection \<open>Exceptions are not caught\<close>

lemma ended_by_callI:
  "prefix (trace w) (trace w0) \<Longrightarrow> perform E ev w0 = (Inl e, w') \<Longrightarrow> ended_by_call E w e w'"
  by (auto simp: ended_by_call_def)

lemma ended_by_call_prefix:
  "prefix (trace w) (trace w1) \<Longrightarrow> ended_by_call E w1 e w' \<Longrightarrow> ended_by_call E w e w'"
  by (auto simp: ended_by_call_def intro: prefix_order.trans)

lemma propagatesI:
  "emits (\<lambda>ev. True) m \<Longrightarrow> (\<And>w e w'. m w = (Inl e, w') \<Longrightarrow> ended_by_call E w e w') \<Longrightarrow>
   propagates E m"
  by (simp add: propagates_def)

lemma propagates_emits: "propagates E m \<Longrightarrow> emits (\<lambda>ev. True) m"
  by (simp add: propagates_def)

lemma propagatesD: "propagates E m \<Longrightarrow> m w = (Inl e, w') \<Longrightarrow> ended_by_call E w e w'"
  by (simp add: propagates_def)

lemma emits_perform: "emits (\<lambda>ev. True) (perform E ev)"
  by (cases ev) (simp_all add: emits_intros)

lemma propagates_perform: "propagates E (perform E ev)"
  by (rule propagatesI [OF emits_perform]) (rule ended_by_callI, simp_all)

lemma propagates_print: "propagates E (print s)"
  using propagates_perform [of E "Print s"] by simp

lemma propagates_check_call: "propagates E (check_call E a c)"
  using propagates_perform [of E "CheckCall a c"] by simp

lemma propagates_rmtree: "propagates E (shutil_rmtree p)"
  using propagates_perform [of E "Rmtree p"] by simp

lemma propagates_copytree: "propagates E (shutil_copytree s d)"
  using propagates_perform [of E "Copytree s d"] by simp

lemma propagates_copy: "propagates E (shutil_copy s d)"
  using propagates_perform [of E "Copy s d"] by simp

lemma propagates_add_css_file: "propagates E (add_css_file f)"
  using propagates_perform [of E "AddCssFile f"] by simp

lemma propagates_succeed: "propagates E (succeed x)"
  by (rule propagatesI [OF emits_succeed]) (simp add: succeed_def)

lemma propagates_osp_exists: "propagates E (osp_exists p)"
  by (rule propagatesI [OF emits_osp_exists]) (simp add: osp_exists_def)

lemma propagates_shutil_which: "propagates E (shutil_which E' name)"
  by (rule propagatesI [OF emits_shutil_which]) (simp add: shutil_which_def)

lemma propagates_bind:
  assumes m: "propagates E m" and f: "\<And>x. propagates E (f x)"
  shows "propagates E (bind_p m f)"
proof (rule propagatesI)
  show "emits (\<lambda>ev. True) (bind_p m f)"
    using m f by (intro emits_bind) (simp_all add: propagates_def)
next
  fix w e w'
  assume fail: "bind_p m f w = (Inl e, w')"
  show "ended_by_call E w e w'"
  proof (cases "fst (m w)")
    case (Inl e1)
    then have "m w = (Inl e, w')"
      using fail by (simp add: bind_p_alt prod_eq_iff)
    then show ?thesis by (rule propagatesD [OF m])
  next
    case (Inr x)
    then have "f x (snd (m w)) = (Inl e, w')"
      using fail by (simp add: bind_p_alt)
    then have "ended_by_call E (snd (m w)) e w'"
      by (rule propagatesD [OF f])
    then show ?thesis
      by (rule ended_by_call_prefix [OF emits_prefix [OF propagates_emits [OF m]]])
  qed
qed

lemma propagates_then: "propagates E m \<Longrightarrow> propagates E k \<Longrightarrow> propagates E (then_p m k)"
  by (simp add: then_p_def propagates_bind)

lemma propagates_if: "propagates E m \<Longrightarrow> propagates E k \<Longrightarrow> propagates E (if b then m else k)"
  by simp

lemma propagates_for_each:
  "(\<And>x. propagates E (body x)) \<Longrightarrow> propagates E (for_each xs body)"
  by (induction xs) (simp_all add: propagates_succeed propagates_then)

lemmas propagates_intros = propagates_print propagates_check_call propagates_rmtree
  propagates_copytree propagates_copy propagates_add_css_file propagates_succeed
  propagates_osp_exists propagates_shutil_which propagates_bind propagates_then propagates_if
  propagates_for_each

lemma propagates_build_api_docs: "propagates E (build_api_docs E out_dir)"
  unfolding build_api_docs_def Let_def by (intro propagates_intros)

lemma propagates_build_examples: "propagates E (build_examples E out_dir)"
  unfolding build_examples_def Let_def by (intro propagates_intros)

lemma propagates_setup_app: "propagates E (setup_app E a)"
  unfolding setup_app_def Let_def
  by (intro propagates_intros propagates_build_api_docs propagates_build_examples)

lemma then_p_succeed_left: "then_p (succeed ()) k = k"
  by (rule ext) (simp add: then_p_def bind_p_def succeed_def)

lemma then_p_succeed_right: "then_p m (succeed ()) = m"
  by (rule ext) (simp add: then_p_def bind_p_def succeed_def split: prod.splits sum.splits)

lemma replay_append: "replay E (xs @ ys) = then_p (replay E xs) (replay E ys)"
  by (induction xs) (simp_all add: then_p_succeed_left then_p_assoc)

lemma replay_single: "replay E [ev] = perform E ev"
  by (simp add: then_p_succeed_right)

lemma trace_perform: "trace (snd (perform E ev w)) = trace w @ [ev]"
  by (cases ev) (simp_all add: trace_simps)

lemma trace_replay_ok:
  "fst (replay E evs w) = Inr () \<Longrightarrow> trace (snd (replay E evs w)) = trace w @ evs"
proof (induction evs arbitrary: w)
  case Nil
  then show ?case by (simp add: succeed_def)
next
  case (Cons ev evs)
  from Cons.prems have 1: "fst (perform E ev w) = Inr ()"
    by (simp add: then_p_alt split: sum.splits)
  with Cons.prems have 2: "fst (replay E evs (snd (perform E ev w))) = Inr ()"
    by (simp add: then_p_alt)
  show ?case
    using 1 by (simp add: then_p_alt Cons.IH [OF 2] trace_perform)
qed

lemma calls_onlyI:
  "(\<And>w. trace (snd (m w)) = trace w @ new_events w (snd (m w))) \<Longrightarrow>
   (\<And>w. replay E (new_events w (snd (m w))) w =
            (case fst (m w) of Inl e \<Rightarrow> Inl e | Inr x \<Rightarrow> Inr (), snd (m w))) \<Longrightarrow>
   calls_only E m"
  by (simp add: calls_only_def)

lemma calls_only_trace:
  "calls_only E m \<Longrightarrow> trace (snd (m w)) = trace w @ new_events w (snd (m w))"
  by (simp add: calls_only_def)

lemma calls_only_replay:
  "calls_only E m \<Longrightarrow> replay E (new_events w (snd (m w))) w =
      (case fst (m w) of Inl e \<Rightarrow> Inl e | Inr x \<Rightarrow> Inr (), snd (m w))"
  by (simp add: calls_only_def)

lemma calls_only_perform: "calls_only E (perform E ev)"
proof (rule calls_onlyI)
  fix w
  have new: "new_events w (snd (perform E ev w)) = [ev]"
    by (simp add: new_events_def trace_perform)
  show "trace (snd (perform E ev w)) = trace w @ new_events w (snd (perform E ev w))"
    by (simp add: new trace_perform)
  show "replay E (new_events w (snd (perform E ev w))) w =
      (case fst (perform E ev w) of Inl e \<Rightarrow> Inl e | Inr x \<Rightarrow> Inr (), snd (perform E ev w))"
    unfolding new replay_single by (simp add: prod_eq_iff split: sum.splits)
qed

lemma calls_only_print: "calls_only E (print s)"
  using calls_only_perform [of E "Print s"] by simp

lemma calls_only_check_call: "calls_only E (check_call E a c)"
  using calls_only_perform [of E "CheckCall a c"] by simp

lemma calls_only_rmtree: "calls_only E (shutil_rmtree p)"
  using calls_only_perform [of E "Rmtree p"] by simp

lemma calls_only_copytree: "calls_only E (shutil_copytree s d)"
  using calls_only_perform [of E "Copytree s d"] by simp

lemma calls_only_copy: "calls_only E (shutil_copy s d)"
  using calls_only_perform [of E "Copy s d"] by simp

lemma calls_only_add_css_file: "calls_only E (add_css_file f)"
  using calls_only_perform [of E "AddCssFile f"] by simp

lemma calls_only_succeed: "calls_only E (succeed x)"
  by (rule calls_onlyI) (simp_all add: succeed_def new_events_def)

lemma calls_only_osp_exists: "calls_only E (osp_exists p)"
  by (rule calls_onlyI) (simp_all add: osp_exists_def new_events_def succeed_def)

lemma calls_only_shutil_which: "calls_only E (shutil_which E' name)"
  by (rule calls_onlyI) (simp_all add: shutil_which_def new_events_def succeed_def)

lemma new_events_trace: "trace w' = trace w @ evs \<Longrightarrow> trace w' = trace w @ new_events w w'"
  by (simp add: new_events_def)

lemma calls_only_bind:
  assumes m: "calls_only E m" and f: "\<And>x. calls_only E (f x)"
  shows "calls_only E (bind_p m f)"
proof (rule calls_onlyI)
  fix w
  let ?w1 = "snd (m w)"
  note tm = calls_only_trace [OF m, of w]
  note rm = calls_only_replay [OF m, of w]
  show "trace (snd (bind_p m f w)) = trace w @ new_events w (snd (bind_p m f w))"
  proof (cases "fst (m w)")
    case (Inl e)
    then show ?thesis using tm by (simp add: bind_p_alt)
  next
    case (Inr x)
    have "trace (snd (f x ?w1)) = trace ?w1 @ new_events ?w1 (snd (f x ?w1))"
      by (rule calls_only_trace [OF f])
    with tm have "trace (snd (f x ?w1)) = trace w @ (new_events w ?w1 @ new_events ?w1 (snd (f x ?w1)))"
      by simp
    then have "trace (snd (f x ?w1)) = trace w @ new_events w (snd (f x ?w1))"
      by (rule new_events_trace)
    then show ?thesis using Inr by (simp add: bind_p_alt)
  qed
  show "replay E (new_events w (snd (bind_p m f w))) w =
      (case fst (bind_p m f w) of Inl e \<Rightarrow> Inl e | Inr x \<Rightarrow> Inr (), snd (bind_p m f w))"
  proof (cases "fst (m w)")
    case (Inl e)
    then show ?thesis using rm by (simp add: bind_p_alt)
  next
    case (Inr x)
    have tf: "trace (snd (f x ?w1)) = trace ?w1 @ new_events ?w1 (snd (f x ?w1))"
      by (rule calls_only_trace [OF f])
    have split: "new_events w (snd (f x ?w1)) = new_events w ?w1 @ new_events ?w1 (snd (f x ?w1))"
      using tm tf by (intro new_events_trans) (auto simp: prefix_def)
    have "replay E (new_events w ?w1) w = (Inr (), ?w1)"
      using rm Inr by simp
    then have "replay E (new_events w (snd (f x ?w1))) w =
        replay E (new_events ?w1 (snd (f x ?w1))) ?w1"
      unfolding split replay_append by (simp add: then_p_alt)
    then show ?thesis
      using Inr calls_only_replay [OF f, of ?w1 x] by (simp add: bind_p_alt)
  qed
qed

lemma calls_only_then: "calls_only E m \<Longrightarrow> calls_only E k \<Longrightarrow> calls_only E (then_p m k)"
  by (simp add: then_p_def calls_only_bind)

lemma calls_only_if: "calls_only E m \<Longrightarrow> calls_only E k \<Longrightarrow> calls_only E (if b then m else k)"
  by simp

lemma calls_only_for_each:
  "(\<And>x. calls_only E (body x)) \<Longrightarrow> calls_only E (for_each xs body)"
  by (induction xs) (simp_all add: calls_only_succeed calls_only_then)

lemmas calls_only_intros = calls_only_print calls_only_check_call calls_only_rmtree
  calls_only_copytree calls_only_copy calls_only_add_css_file calls_only_succeed
  calls_only_osp_exists calls_only_shutil_which calls_only_bind calls_only_then calls_only_if
  calls_only_for_each

lemma calls_only_build_api_docs: "calls_only E (build_api_docs E out_dir)"
  unfolding build_api_docs_def Let_def by (intro calls_only_intros)

lemma calls_only_build_examples: "calls_only E (build_examples E out_dir)"
  unfolding build_examples_def Let_def by (intro calls_only_intros)

lemma calls_only_setup_app: "calls_only E (setup_app E a)"
  unfolding setup_app_def Let_def
  by (intro calls_only_intros calls_only_build_api_docs calls_only_build_examples)

lemma calls_only_uncaught:
  fixes f :: "unit prog"
  assumes "calls_only E f"
  shows "uncaught E f"
  unfolding uncaught_def
proof (intro allI conjI impI)
  fix w
  show eq: "f w = replay E (new_events w (snd (f w))) w"
    using calls_only_replay [OF assms, of w] by (simp add: prod_eq_iff split: sum.splits)
  fix pre ev post w0 e w'
  assume a: "new_events w (snd (f w)) = pre @ ev # post
              \<and> replay E pre w = (Inr (), w0) \<and> perform E ev w0 = (Inl e, w')"
  then have "replay E (pre @ ev # post) w = (Inl e, w')"
    unfolding replay_append by (simp add: then_p_alt)
  with eq a show res: "f w = (Inl e, w')"
    by simp
  have "trace w0 = trace w @ pre"
    using a trace_replay_ok [of E pre w] by simp
  moreover have "trace w' = trace w0 @ [ev]"
    using a trace_perform [of E ev w0] by simp
  moreover have "trace (snd (f w)) = trace w @ pre @ ev # post"
    using calls_only_trace [OF assms, of w] a by simp
  ultimately show "post = []"
    using res by simp
qed

lemma uncaughtD:
  "uncaught E f \<Longrightarrow> new_events w (snd (f w)) = pre @ ev # post \<Longrightarrow>
   replay E pre w = (Inr (), w0) \<Longrightarrow> perform E ev w0 = (Inl e, w') \<Longrightarrow>
   f w = (Inl e, w') \<and> post = []"
  unfolding uncaught_def by blast

text \<open>
  C7. None of \<open>build_api_docs\<close>, \<open>build_examples\<close> and the hook catches an exception.
  The outcome of each of them, in every world, is that of making the library calls it
  records one after the other and stopping at the first that raises: when a call it made
  (a \<open>check_call\<close> whose tool was not found or whose command failed, an \<open>rmtree\<close>, a
  \<open>copytree\<close>, a copy) raises \<open>e\<close> and leaves the world \<open>w'\<close>, the function raises the
  same \<open>e\<close>, leaves the same \<open>w'\<close> and makes no call after it. Conversely an exception
  of the function is that of one library call it made. At module level, a manifest
  object without the key \<open>version\<close> makes the subscript raise the KeyError, which
  nothing catches either.
\<close>

theorem failures_propagate:
  "uncaught E (build_api_docs E out_dir)
   \<and> uncaught E (build_examples E out_dir)
   \<and> uncaught E (setup_app E a)
   \<and> (build_api_docs E out_dir w = (Inl e, w') \<longrightarrow> ended_by_call E w e w')
   \<and> (build_examples E out_dir w = (Inl e, w') \<longrightarrow> ended_by_call E w e w')
   \<and> (setup_app E a w = (Inl e, w') \<longrightarrow> ended_by_call E w e w')
   \<and> (data E fs = Inr (JDict kvs) \<and> map_of kvs ''version'' = None \<longrightarrow>
        version E fs = Inl (KeyError ''version''))"
proof (intro conjI impI)
  show "uncaught E (build_api_docs E out_dir)"
    by (rule calls_only_uncaught [OF calls_only_build_api_docs])
  show "uncaught E (build_examples E out_dir)"
    by (rule calls_only_uncaught [OF calls_only_build_examples])
  show "uncaught E (setup_app E a)"
    by (rule calls_only_uncaught [OF calls_only_setup_app])
next
  assume "build_api_docs E out_dir w = (Inl e, w')"
  then show "ended_by_call E w e w'"
    by (rule propagatesD [OF propagates_build_api_docs])
next
  assume "build_examples E out_dir w = (Inl e, w')"
  then show "ended_by_call E w e w'"
    by (rule propagatesD [OF propagates_build_examples])
next
  assume "setup_app E a w = (Inl e, w')"
  then show "ended_by_call E w e w'"
    by (rule propagatesD [OF propagates_setup_app])
next
  assume "data E fs = Inr (JDict kvs) \<and> map_of kvs ''version'' = None"
  then show "version E fs = Inl (KeyError ''version'')"
    by (simp add: version_def subscript_def)
qed

lemmas replay_defs = replay.simps perform.simps run_defs root_dir_def

theorem failures_propagate_witness:
  "new_events w_fresh (snd (build_api_docs E_no_tools [''out''] w_fresh)) =
      [Print ''Building lumino API docs''] @
      CheckCall [None, Some ''install'', Some ''-g'', Some ''yarn''] (root_dir E_no_tools) # []
   \<and> replay E_no_tools [Print ''Building lumino API docs''] w_fresh =
      (Inr (), snd (print ''Building lumino API docs'' w_fresh))
   \<and> build_api_docs E_no_tools [''out''] w_fresh =
      (Inl TypeError,
       snd (check_call E_no_tools [None, Some ''install'', Some ''-g'', Some ''yarn'']
              (root_dir E_no_tools) (snd (print ''Building lumino API docs'' w_fresh))))
   \<and> new_events w_fresh (snd (build_examples E_failing [''out''] w_fresh)) =
      [Print ''Building lumino examples'',
       CheckCall [Some ''/usr/bin/npm'', Some ''install'', Some ''-g'', Some ''yarn'']
         (root_dir E_failing),
       CheckCall [Some ''/usr/bin/yarn''] (root_dir E_failing)] @
      CheckCall [Some ''/usr/bin/yarn'', Some ''build''] (root_dir E_failing) # []
   \<and> fst (build_examples E_failing [''out''] w_fresh) = Inl (CalledProcessError 1)
   \<and> new_events w_no_changelog (snd (setup_app E0 app0 w_no_changelog)) =
      [] @ Copy (changelog_source E0) (changelog_dest E0) # []
   \<and> setup_app E0 app0 w_no_changelog =
      (Inl FileNotFoundError,
       snd (shutil_copy (changelog_source E0) (changelog_dest E0) w_no_changelog))
   \<and> data E0 fs_no_version = Inr (JDict [])
   \<and> version E0 fs_no_version = Inl (KeyError ''version'')"
proof -
  let ?B = "''Building lumino API docs''"
  let ?c = "CheckCall [None, Some ''install'', Some ''-g'', Some ''yarn''] (root_dir E_no_tools)"
  have a1: "new_events w_fresh (snd (build_api_docs E_no_tools [''out''] w_fresh)) =
      [Print ?B] @ ?c # []"
    by (simp add: new_events_def replay_defs fix_defs)
  have a2: "replay E_no_tools [Print ?B] w_fresh = (Inr (), snd (print ?B w_fresh))"
    by (simp add: then_p_succeed_right print_def)
  have a3: "perform E_no_tools ?c (snd (print ?B w_fresh)) =
      (Inl TypeError, snd (perform E_no_tools ?c (snd (print ?B w_fresh))))"
    by (rule pairI) (simp add: check_call_def)
  have a: "build_api_docs E_no_tools [''out''] w_fresh =
      (Inl TypeError, snd (perform E_no_tools ?c (snd (print ?B w_fresh))))"
    using uncaughtD [OF failures_propagate [THEN conjunct1] a1 a2 a3] by simp
  let ?pre = "[Print ''Building lumino examples'',
       CheckCall [Some ''/usr/bin/npm'', Some ''install'', Some ''-g'', Some ''yarn'']
         (root_dir E_failing),
       CheckCall [Some ''/usr/bin/yarn''] (root_dir E_failing)]"
  let ?y = "CheckCall [Some ''/usr/bin/yarn'', Some ''build''] (root_dir E_failing)"
  have x1: "new_events w_fresh (snd (build_examples E_failing [''out''] w_fresh)) = ?pre @ ?y # []"
    by (simp add: new_events_def replay_defs fix_defs)
  have x2: "replay E_failing ?pre w_fresh = (Inr (), snd (replay E_failing ?pre w_fresh))"
    by (rule pairI) (simp add: replay_defs fix_defs)
  have x3: "perform E_failing ?y (snd (replay E_failing ?pre w_fresh)) =
      (Inl (CalledProcessError 1), snd (perform E_failing ?y (snd (replay E_failing ?pre w_fresh))))"
    by (rule pairI) (simp add: replay_defs fix_defs)
  have x: "fst (build_examples E_failing [''out''] w_fresh) = Inl (CalledProcessError 1)"
    using uncaughtD [OF failures_propagate [THEN conjunct2, THEN conjunct1] x1 x2 x3] by simp
  let ?k = "Copy (changelog_source E0) (changelog_dest E0)"
  have s1: "new_events w_no_changelog (snd (setup_app E0 app0 w_no_changelog)) = [] @ ?k # []"
    by (simp add: new_events_def replay_defs fix_defs)
  have s2: "replay E0 [] w_no_changelog = (Inr (), w_no_changelog)"
    by (simp add: succeed_def)
  have s3: "perform E0 ?k w_no_changelog =
      (Inl FileNotFoundError, snd (perform E0 ?k w_no_changelog))"
    by (rule pairI) (simp add: replay_defs fix_defs)
  have s: "setup_app E0 app0 w_no_changelog =
      (Inl FileNotFoundError, snd (perform E0 ?k w_no_changelog))"
    using uncaughtD [OF failures_propagate [THEN conjunct2, THEN conjunct2, THEN conjunct1] s1 s2 s3]
    by simp
  have d: "data E0 fs_no_version = Inr (JDict []) \<and> map_of [] ''version'' = (None :: json option)"
    by (simp add: data_def read_text_def package_json_def eval_path fix_defs)
  have v: "version E0 fs_no_version = Inl (KeyError ''version'')"
    using failures_propagate [of E0 _ _ _ _ _ fs_no_version "[]"] d by blast
  show ?thesis
    using a1 a2 a x1 x s1 s d v by simp
qed

subsection \<open>The order of the hook\<close>

lemma emits_all_build_examples: "emits (\<lambda>ev. True) (build_examples E out_dir)"
  by (rule propagates_emits [OF propagates_build_examples])

lemma fst_add_css_file: "fst (add_css_file f w) = Inr ()"
  by (simp add: add_css_file_def)

text \<open>
  C8. In every invocation the hook first copies \<open>CHANGELOG.md\<close> to \<open>changelog.md\<close> beside
  conf.py; if that returned it registers \<open>css/custom.css\<close> and runs \<open>build_api_docs\<close> on
  the application's output directory; if that returned it runs \<open>build_examples\<close> on the
  same directory. The calls it records are those of the four steps in this order, the
  hook returns exactly when the copy and the two build functions return, and its outcome
  is then that of \<open>build_examples\<close>.
\<close>

theorem setup_app_order:
  "(let c = shutil_copy (changelog_source E) (changelog_dest E) w;
        s = add_css_file ''css/custom.css'' (snd c);
        b = build_api_docs E (outdir a) (snd s);
        x = build_examples E (outdir a) (snd b)
    in new_events w (snd (setup_app E a w)) =
         Copy (changelog_source E) (changelog_dest E) #
         (if fst c = Inr () then
            AddCssFile ''css/custom.css'' # new_events (snd s) (snd b) @
            (if fst b = Inr () then new_events (snd b) (snd x) else [])
          else [])
       \<and> (fst (setup_app E a w) = Inr ()
            \<longleftrightarrow> fst c = Inr () \<and> fst b = Inr () \<and> fst x = Inr ())
       \<and> (fst c = Inr () \<and> fst b = Inr () \<longrightarrow> setup_app E a w = x))"
proof -
  let ?c = "shutil_copy (changelog_source E) (changelog_dest E) w"
  let ?s = "add_css_file ''css/custom.css'' (snd ?c)"
  let ?b = "build_api_docs E (outdir a) (snd ?s)"
  let ?x = "build_examples E (outdir a) (snd ?b)"
  have run: "setup_app E a w =
      (case fst ?c of Inl e \<Rightarrow> (Inl e, snd ?c)
       | Inr u \<Rightarrow> (case fst ?b of Inl e \<Rightarrow> (Inl e, snd ?b) | Inr u \<Rightarrow> ?x))"
    by (simp add: setup_app_def Let_def then_p_alt fst_add_css_file changelog_source_def
        changelog_dest_def split: sum.splits)
  have tc: "trace (snd ?c) = trace w @ [Copy (changelog_source E) (changelog_dest E)]"
    by (rule trace_copy)
  have ts: "trace (snd ?s) = trace (snd ?c) @ [AddCssFile ''css/custom.css'']"
    by (rule trace_add_css_file)
  obtain eb where tb: "trace (snd ?b) = trace (snd ?s) @ eb"
    using emitsD [OF emits_all_build_api_docs] by blast
  obtain ex where tx: "trace (snd ?x) = trace (snd ?b) @ ex"
    using emitsD [OF emits_all_build_examples] by blast
  have nb: "new_events (snd ?s) (snd ?b) = eb"
    by (rule new_events_eq [OF tb])
  have nx: "new_events (snd ?b) (snd ?x) = ex"
    by (rule new_events_eq [OF tx])
  have "new_events w (snd (setup_app E a w)) =
         Copy (changelog_source E) (changelog_dest E) #
         (if fst ?c = Inr () then
            AddCssFile ''css/custom.css'' # new_events (snd ?s) (snd ?b) @
            (if fst ?b = Inr () then new_events (snd ?b) (snd ?x) else [])
          else [])"
    unfolding nb nx
    by (simp add: run new_events_def tc ts tb tx split: sum.splits)
  moreover have "fst (setup_app E a w) = Inr ()
            \<longleftrightarrow> fst ?c = Inr () \<and> fst ?b = Inr () \<and> fst ?x = Inr ()"
    by (simp add: run split: sum.splits)
  moreover have "fst ?c = Inr () \<and> fst ?b = Inr () \<longrightarrow> setup_app E a w = ?x"
    by (simp add: run split: sum.splits)
  ultimately show ?thesis
    by (simp add: Let_def)
qed

theorem setup_app_order_witness:
  "fst (shutil_copy (changelog_source E0) (changelog_dest E0) w_fresh) = Inr ()
   \<and> fst (build_api_docs E0 (outdir app0)
            (snd (add_css_file ''css/custom.css''
                   (snd (shutil_copy (changelog_source E0) (changelog_dest E0) w_fresh))))) = Inr ()
   \<and> setup_app E0 app0 w_fresh =
       build_examples E0 (outdir app0)
         (snd (build_api_docs E0 (outdir app0)
            (snd (add_css_file ''css/custom.css''
                   (snd (shutil_copy (changelog_source E0) (changelog_dest E0) w_fresh))))))"
proof -
  have c: "fst (shutil_copy (changelog_source E0) (changelog_dest E0) w_fresh) = Inr ()"
    by (simp add: run_defs fix_defs)
  have b: "fst (build_api_docs E0 (outdir app0)
            (snd (add_css_file ''css/custom.css''
                   (snd (shutil_copy (changelog_source E0) (changelog_dest E0) w_fresh))))) = Inr ()"
    by (simp add: run_defs fix_defs)
  show ?thesis
    using setup_app_order [of E0 w_fresh app0] c b by (simp add: Let_def)
qed

subsection \<open>The examples\<close>

lemma examples_build_skip:
  "files w (normpath (example_index E)) \<noteq> None \<Longrightarrow>
   examples_build E w = print ''already have examples'' w"
  by (simp add: examples_build_def bind_p_def osp_exists_def)

lemma examples_build_run:
  "files w (normpath (example_index E)) = None \<Longrightarrow>
   examples_build E w = then_p (examples_chain E) (for_each EXAMPLES (copy_example E)) w"
  by (simp add: examples_build_def bind_p_def osp_exists_def)

lemma emits_examples_chain:
  "(\<And>s. P (Print s)) \<Longrightarrow> (\<And>a c. P (CheckCall a c)) \<Longrightarrow> emits P (examples_chain E)"
  unfolding examples_chain_def by (intro emits_intros) simp_all

lemma emits_copy_example:
  "(\<And>s. P (Print s)) \<Longrightarrow> (\<And>p. P (Rmtree p)) \<Longrightarrow> P (example_copy E example) \<Longrightarrow>
   emits P (copy_example E example)"
  unfolding copy_example_def example_copy_def by (intro emits_intros) simp_all

lemma emits_examples_build:
  "(\<And>s. P (Print s)) \<Longrightarrow> (\<And>a c. P (CheckCall a c)) \<Longrightarrow> (\<And>p. P (Rmtree p)) \<Longrightarrow>
   (\<And>example. example \<in> set EXAMPLES \<Longrightarrow> P (example_copy E example)) \<Longrightarrow>
   emits P (examples_build E)"
  unfolding examples_build_def
  by (intro emits_intros emits_examples_chain emits_copy_example) simp_all

lemma emits_examples_stage:
  "(\<And>s. P (Print s)) \<Longrightarrow> (\<And>p. P (Rmtree p)) \<Longrightarrow>
   P (Copytree (examples_dir E) (examples_dest out_dir)) \<Longrightarrow>
   emits P (examples_stage E out_dir)"
  unfolding examples_stage_def by (intro emits_intros) simp_all

lemma emits_build_examples:
  "(\<And>s. P (Print s)) \<Longrightarrow> (\<And>a c. P (CheckCall a c)) \<Longrightarrow> (\<And>p. P (Rmtree p)) \<Longrightarrow>
   (\<And>example. example \<in> set EXAMPLES \<Longrightarrow> P (example_copy E example)) \<Longrightarrow>
   P (Copytree (examples_dir E) (examples_dest out_dir)) \<Longrightarrow>
   emits P (build_examples E out_dir)"
  unfolding build_examples_blocks
  by (intro emits_then emits_examples_build emits_examples_stage) simp_all

lemma trace_examples_stage_ok:
  "fst (examples_stage E out_dir w) = Inr () \<Longrightarrow>
   trace (snd (examples_stage E out_dir w)) = trace w @
     [Print (''Copying '' @ render (examples_dir E) @ '' -> '' @ render (examples_dest out_dir))] @
     (if files w (normpath (examples_dest out_dir)) \<noteq> None
      then [Rmtree (examples_dest out_dir)] else []) @
     [Copytree (examples_dir E) (examples_dest out_dir)]"
  by (simp add: examples_stage_def then_p_alt trace_simps fst_print files_print split: sum.splits)

lemma trace_copy_example_ok:
  "fst (copy_example E example w) = Inr () \<Longrightarrow>
   trace (snd (copy_example E example w)) = trace w @
     [Print (''Copying '' @ render (example_source E example) @ '' -> ''
               @ render (example_dest E example))] @
     (if files w (normpath (example_dest E example)) \<noteq> None
      then [Rmtree (example_dest E example)] else []) @
     [example_copy E example]"
  by (simp add: copy_example_def example_copy_def then_p_alt trace_simps fst_print files_print
      split: sum.splits)

lemma copies_copy_example:
  "fst (copy_example E example w) = Inr () \<Longrightarrow>
   filter is_copy (new_events w (snd (copy_example E example w))) = [example_copy E example]"
  by (simp add: trace_copy_example_ok new_events_def example_copy_def)

lemma emits_all_copy_example: "emits (\<lambda>ev. True) (copy_example E example)"
  by (rule emits_copy_example) simp_all

lemma emits_all_for_each_copy: "emits (\<lambda>ev. True) (for_each xs (copy_example E))"
  by (rule emits_for_each) (rule emits_all_copy_example)

lemma copies_for_each:
  "fst (for_each xs (copy_example E) w) = Inr () \<Longrightarrow>
   filter is_copy (new_events w (snd (for_each xs (copy_example E) w))) = map (example_copy E) xs"
proof (induction xs arbitrary: w)
  case Nil
  then show ?case by (simp add: succeed_def new_events_self)
next
  case (Cons x xs)
  let ?w1 = "snd (copy_example E x w)"
  from Cons.prems have ok1: "fst (copy_example E x w) = Inr ()"
    by (simp add: then_p_alt split: sum.splits)
  with Cons.prems have ok2: "fst (for_each xs (copy_example E) ?w1) = Inr ()"
    by (simp add: then_p_alt)
  have "new_events w (snd (for_each xs (copy_example E) ?w1)) =
      new_events w ?w1 @ new_events ?w1 (snd (for_each xs (copy_example E) ?w1))"
    by (rule new_events_trans [OF emits_prefix [OF emits_all_copy_example]
          emits_prefix [OF emits_all_for_each_copy]])
  then show ?case
    using ok1 by (simp add: then_p_alt copies_copy_example [OF ok1] Cons.IH [OF ok2])
qed

lemma emits_filter_empty:
  "emits (\<lambda>ev. \<not> P ev) m \<Longrightarrow> filter P (new_events w (snd (m w))) = []"
  using emits_new_events [of "\<lambda>ev. \<not> P ev" m w] by (simp add: list_all_iff filter_empty_conv)

lemma emits_all_examples_build: "emits (\<lambda>ev. True) (examples_build E)"
  by (rule emits_examples_build) simp_all

lemma emits_all_examples_stage: "emits (\<lambda>ev. True) (examples_stage E out_dir)"
  by (rule emits_examples_stage) simp_all

lemma emits_all_examples_chain: "emits (\<lambda>ev. True) (examples_chain E)"
  by (rule emits_examples_chain) simp_all

lemma copies_examples_chain:
  "filter is_copy (new_events w (snd (examples_chain E w))) = []"
  by (rule emits_filter_empty) (rule emits_examples_chain, simp_all)

lemma copies_examples_build:
  assumes "fst (examples_build E w) = Inr ()"
  shows "filter is_copy (new_events w (snd (examples_build E w))) =
     (if files w (normpath (example_index E)) = None then map (example_copy E) EXAMPLES else [])"
proof (cases "files w (normpath (example_index E)) = None")
  case False
  then show ?thesis
    by (auto simp: examples_build_skip new_events_def trace_print)
next
  case True
  let ?wc = "snd (examples_chain E w)"
  let ?loop = "for_each EXAMPLES (copy_example E)"
  have run: "examples_build E w = then_p (examples_chain E) ?loop w"
    by (rule examples_build_run [OF True])
  with assms have okc: "fst (examples_chain E w) = Inr ()"
    by (simp add: then_p_alt split: sum.splits)
  with assms run have okl: "fst (?loop ?wc) = Inr ()" and res: "examples_build E w = ?loop ?wc"
    by (simp_all add: then_p_alt)
  have "new_events w (snd (?loop ?wc)) = new_events w ?wc @ new_events ?wc (snd (?loop ?wc))"
    by (rule new_events_trans [OF emits_prefix [OF emits_all_examples_chain]
          emits_prefix [OF emits_all_for_each_copy]])
  then show ?thesis
    using True by (simp add: res copies_examples_chain copies_for_each [OF okl])
qed

lemma copies_examples_stage:
  "fst (examples_stage E out_dir w) = Inr () \<Longrightarrow>
   filter is_copy (new_events w (snd (examples_stage E out_dir w))) =
     [Copytree (examples_dir E) (examples_dest out_dir)]"
  by (simp add: trace_examples_stage_ok new_events_def)

lemma build_examples_ok:
  assumes "fst (build_examples E out_dir w) = Inr ()"
  shows "fst (examples_build E w) = Inr ()"
    and "fst (examples_stage E out_dir (snd (examples_build E w))) = Inr ()"
    and "build_examples E out_dir w = examples_stage E out_dir (snd (examples_build E w))"
  using assms by (auto simp: build_examples_blocks then_p_alt split: sum.splits)

lemma build_examples_new_events:
  "fst (examples_build E w) = Inr () \<Longrightarrow>
   new_events w (snd (build_examples E out_dir w)) =
     new_events w (snd (examples_build E w)) @
     new_events (snd (examples_build E w)) (snd (build_examples E out_dir w))"
  by (simp add: build_examples_blocks then_p_alt
      new_events_trans [OF emits_prefix [OF emits_all_examples_build]
        emits_prefix [OF emits_all_examples_stage]])

lemma copies_build_examples:
  assumes "fst (build_examples E out_dir w) = Inr ()"
  shows "filter is_copy (new_events w (snd (build_examples E out_dir w))) =
     (if files w (normpath (example_index E)) = None then map (example_copy E) EXAMPLES else [])
     @ [Copytree (examples_dir E) (examples_dest out_dir)]"
proof -
  note ok = build_examples_ok [OF assms]
  have "filter is_copy (new_events (snd (examples_build E w)) (snd (build_examples E out_dir w)))
      = [Copytree (examples_dir E) (examples_dest out_dir)]"
    using copies_examples_stage [OF ok(2)] by (simp add: ok(3))
  then show ?thesis
    by (simp add: build_examples_new_events [OF ok(1)] copies_examples_build [OF ok(1)])
qed

text \<open>
  C4, as stated, fails: the loop that copies each example into the documentation source
  tree stands in the branch that runs the build chain. With the marker of the first
  example in place the run returns and has copied no example into the source tree, only
  the aggregated tree into the output directory.
\<close>

theorem build_examples_skip_counterexample:
  "fst (build_examples E0 [''out''] w_built) = Inr ()
   \<and> example_copy E0 ''accordionpanel''
       \<notin> set (new_events w_built (snd (build_examples E0 [''out''] w_built)))
   \<and> filter is_copy (new_events w_built (snd (build_examples E0 [''out''] w_built)))
       = [Copytree (examples_dir E0) (examples_dest [''out''])]"
  by (simp add: run_defs fix_defs new_events_def example_copy_def)

text \<open>
  C4, amended. When \<open>build_examples\<close> returns and the marker was absent at the call, the
  copies it made are the build output of each named example from the repository's
  \<open>examples/example-NAME\<close> into \<open>source/examples/NAME\<close>, in the order of the list, and
  afterwards the aggregated tree \<open>source/examples\<close> into \<open>out_dir/examples\<close>. When it
  returns and the marker was present, the only copy is that of the aggregated tree.
\<close>

theorem build_examples_copies:
  assumes "fst (build_examples E out_dir w) = Inr ()"
  shows "filter is_copy (new_events w (snd (build_examples E out_dir w))) =
     (if files w (normpath (example_index E)) = None then map (example_copy E) EXAMPLES else [])
     @ [Copytree (examples_dir E) (examples_dest out_dir)]"
proof -
  let ?w1 = "snd (examples_build E w)"
  let ?w' = "snd (build_examples E out_dir w)"
  note ok = build_examples_ok [OF assms]
  have split: "new_events w ?w' = new_events w ?w1 @ new_events ?w1 ?w'"
    by (rule build_examples_new_events [OF ok(1)])
  have build: "filter is_copy (new_events w ?w1) =
      (if files w (normpath (example_index E)) = None then map (example_copy E) EXAMPLES else [])"
    by (rule copies_examples_build [OF ok(1)])
  have stage: "filter is_copy (new_events ?w1 ?w') =
      [Copytree (examples_dir E) (examples_dest out_dir)]"
    using copies_examples_stage [OF ok(2)] by (simp add: ok(3))
  show ?thesis
    unfolding split filter_append build stage ..
qed

theorem build_examples_copies_witness:
  "fst (build_examples E0 [''out''] w_fresh) = Inr ()
   \<and> files w_fresh (normpath (example_index E0)) = None
   \<and> filter is_copy (new_events w_fresh (snd (build_examples E0 [''out''] w_fresh))) =
       [example_copy E0 ''accordionpanel'', example_copy E0 ''datagrid'',
        example_copy E0 ''dockpanel'', Copytree (examples_dir E0) (examples_dest [''out''])]"
proof -
  have ok: "fst (build_examples E0 [''out''] w_fresh) = Inr ()"
    by (rule run_examples_fresh)
  have absent: "files w_fresh (normpath (example_index E0)) = None"
    by (simp add: eval_path fix_defs)
  show ?thesis
    using build_examples_copies [OF ok] ok absent by (simp add: EXAMPLES_def)
qed

lemma copied_examples_filter: "copied_examples E evs = copied_examples E (filter is_copy evs)"
proof (induction evs)
  case Nil
  then show ?case by simp
next
  case (Cons ev evs)
  then show ?case by (cases ev) (simp_all add: copied_examples_def)
qed

lemma copied_example_example_copy: "copied_example E (example_copy E example) = [example]"
  by (simp add: example_copy_def example_dest_def osp_join_def)

lemma copied_example_stage:
  "copied_example E (Copytree (examples_dir E) (examples_dest out_dir)) = []"
  by (simp add: examples_dir_def example_source_def root_dir_def docs_dir_def osp_join_def
      pardir_def)

lemma copied_examples_map: "copied_examples E (map (example_copy E) xs) = xs"
  by (induction xs) (simp_all add: copied_examples_def copied_example_example_copy)

lemma copied_examples_append:
  "copied_examples E (xs @ ys) = copied_examples E xs @ copied_examples E ys"
  by (simp add: copied_examples_def)

lemma copied_examples_subset:
  "list_all (\<lambda>ev. set (copied_example E ev) \<subseteq> A) evs \<Longrightarrow> set (copied_examples E evs) \<subseteq> A"
  by (induction evs) (simp_all add: copied_examples_def)

lemma copied_examples_none:
  "list_all (\<lambda>ev. copied_example E ev = []) evs \<Longrightarrow> copied_examples E evs = []"
  unfolding copied_examples_def list_all_iff by simp

lemma build_examples_skip:
  assumes "files w (normpath (example_index E)) \<noteq> None"
  shows "build_examples E out_dir w =
     then_p (print ''already have examples'') (examples_stage E out_dir) w"
proof -
  have "examples_build E w = print ''already have examples'' w"
    by (rule examples_build_skip [OF assms])
  then show ?thesis
    by (simp only: build_examples_blocks then_p_def bind_p_def)
qed

text \<open>
  C3, as stated, fails: in an invocation that finds the marker of the first example, no
  example is copied from the repository's example directories into the documentation
  source tree, so the set of examples copied is empty.
\<close>

theorem build_examples_copied_set_counterexample:
  "fst (build_examples E0 [''out''] w_built) = Inr ()
   \<and> copied_examples E0 (new_events w_built (snd (build_examples E0 [''out''] w_built))) = []
   \<and> set (copied_examples E0 (new_events w_built (snd (build_examples E0 [''out''] w_built))))
       \<noteq> {''accordionpanel'', ''datagrid'', ''dockpanel''}"
proof -
  have "files w_built (normpath (example_index E0)) \<noteq> None"
    by (simp add: eval_path fix_defs)
  then have run: "build_examples E0 [''out''] w_built =
      then_p (print ''already have examples'') (examples_stage E0 [''out'']) w_built"
    by (rule build_examples_skip)
  have "emits (\<lambda>ev. copied_example E0 ev = [])
      (then_p (print ''already have examples'') (examples_stage E0 [''out'']))"
    by (intro emits_then emits_print emits_examples_stage)
      (simp_all add: copied_example_stage del: copied_example.simps(1))
  then have "copied_examples E0 (new_events w_built (snd (build_examples E0 [''out''] w_built))) = []"
    unfolding run by (intro copied_examples_none emits_new_events)
  then show ?thesis
    using run_examples_built by simp
qed

text \<open>
  C3, amended. In every invocation of \<open>build_examples\<close> the examples copied from the
  repository's example directories into the documentation source tree are among
  \<open>accordionpanel\<close>, \<open>datagrid\<close> and \<open>dockpanel\<close>. When the marker is absent at the call
  and the invocation returns, they are exactly these three, each once; when the marker is
  present, none is copied.
\<close>

theorem build_examples_copied_set:
  "set (copied_examples E (new_events w (snd (build_examples E out_dir w)))) \<subseteq> set EXAMPLES
   \<and> (files w (normpath (example_index E)) = None \<and> fst (build_examples E out_dir w) = Inr ()
        \<longrightarrow> copied_examples E (new_events w (snd (build_examples E out_dir w))) = EXAMPLES)
   \<and> (files w (normpath (example_index E)) \<noteq> None
        \<longrightarrow> copied_examples E (new_events w (snd (build_examples E out_dir w))) = [])"
proof (intro conjI impI)
  have "emits (\<lambda>ev. set (copied_example E ev) \<subseteq> set EXAMPLES) (build_examples E out_dir)"
    by (rule emits_build_examples)
      (simp_all add: copied_example_example_copy copied_example_stage
         del: copied_example.simps(1))
  then show "set (copied_examples E (new_events w (snd (build_examples E out_dir w))))
      \<subseteq> set EXAMPLES"
    by (intro copied_examples_subset emits_new_events)
next
  assume a: "files w (normpath (example_index E)) = None \<and> fst (build_examples E out_dir w) = Inr ()"
  then have "fst (build_examples E out_dir w) = Inr ()"
    by simp
  from copies_build_examples [OF this] a
  have "filter is_copy (new_events w (snd (build_examples E out_dir w))) =
      map (example_copy E) EXAMPLES @ [Copytree (examples_dir E) (examples_dest out_dir)]"
    by simp
  then have "copied_examples E (new_events w (snd (build_examples E out_dir w))) =
      copied_examples E (map (example_copy E) EXAMPLES
         @ [Copytree (examples_dir E) (examples_dest out_dir)])"
    using copied_examples_filter [of E "new_events w (snd (build_examples E out_dir w))"]
    by simp
  moreover have "copied_examples E [Copytree (examples_dir E) (examples_dest out_dir)] = []"
    by (simp add: copied_examples_def copied_example_stage del: copied_example.simps(1))
  ultimately show "copied_examples E (new_events w (snd (build_examples E out_dir w))) = EXAMPLES"
    by (simp only: copied_examples_append copied_examples_map append_Nil2)
next
  assume "files w (normpath (example_index E)) \<noteq> None"
  then have run: "build_examples E out_dir w =
      then_p (print ''already have examples'') (examples_stage E out_dir) w"
    by (rule build_examples_skip)
  have "emits (\<lambda>ev. copied_example E ev = [])
      (then_p (print ''already have examples'') (examples_stage E out_dir))"
    by (intro emits_then emits_print emits_examples_stage)
      (simp_all add: copied_example_stage del: copied_example.simps(1))
  then show "copied_examples E (new_events w (snd (build_examples E out_dir w))) = []"
    unfolding run by (intro copied_examples_none emits_new_events)
qed

theorem build_examples_copied_set_witness:
  "files w_fresh (normpath (example_index E0)) = None
   \<and> fst (build_examples E0 [''out''] w_fresh) = Inr ()
   \<and> copied_examples E0 (new_events w_fresh (snd (build_examples E0 [''out''] w_fresh)))
       = [''accordionpanel'', ''datagrid'', ''dockpanel'']
   \<and> files w_built (normpath (example_index E0)) \<noteq> None
   \<and> copied_examples E0 (new_events w_built (snd (build_examples E0 [''out''] w_built))) = []"
proof -
  have absent: "files w_fresh (normpath (example_index E0)) = None"
    by (simp add: eval_path fix_defs)
  have present: "files w_built (normpath (example_index E0)) \<noteq> None"
    by (simp add: eval_path fix_defs)
  show ?thesis
    using build_examples_copied_set [of E0 w_fresh "[''out'']"]
      build_examples_copied_set [of E0 w_built "[''out'']"]
      absent present run_examples_fresh
    by (simp add: EXAMPLES_def)
qed

subsection \<open>What decides whether the examples are built\<close>

lemma examples_chain_head:
  "\<exists>npm rest. trace (snd (examples_chain E w)) = trace w @
      Print ''Building lumino examples'' #
      CheckCall [npm, Some ''install'', Some ''-g'', Some ''yarn''] (root_dir E) # rest"
proof -
  let ?w1 = "snd (print ''Building lumino examples'' w)"
  let ?npm = "which E ?w1 ''npm''"
  let ?call = "check_call E [?npm, Some ''install'', Some ''-g'', Some ''yarn''] (root_dir E)"
  let ?k = "bind_p (shutil_which E ''yarn'') (\<lambda>yarn.
     then_p (check_call E [yarn] (root_dir E))
    (then_p (check_call E [yarn, Some ''build''] (root_dir E))
            (check_call E [yarn, Some ''build:examples''] (root_dir E))))"
  have run: "examples_chain E w = then_p ?call ?k ?w1"
    by (simp add: examples_chain_def then_p_alt bind_p_alt shutil_which_def fst_print)
  have "emits (\<lambda>ev. True) ?k"
    by (intro emits_intros) simp_all
  then obtain evs where evs: "trace (snd (?k (snd (?call ?w1)))) = trace (snd (?call ?w1)) @ evs"
    using emitsD by blast
  have "\<exists>rest. trace (snd (then_p ?call ?k ?w1)) = trace (snd (?call ?w1)) @ rest"
    using evs by (cases "fst (?call ?w1)") (simp_all add: then_p_alt)
  then show ?thesis
    unfolding run by (auto simp: trace_check_call trace_print)
qed

lemma then_p_extends:
  assumes "emits (\<lambda>ev. True) k"
  shows "\<exists>evs. trace (snd (then_p m k w)) = trace (snd (m w)) @ evs"
proof (cases "fst (m w)")
  case (Inl e)
  then show ?thesis by (simp add: then_p_alt)
next
  case (Inr u)
  then show ?thesis using emitsD [OF assms, of "snd (m w)"] by (auto simp: then_p_alt)
qed

lemma build_examples_run_head:
  assumes "files w (normpath (example_index E)) = None"
  shows "\<exists>npm rest. new_events w (snd (build_examples E out_dir w)) =
      Print ''Building lumino examples'' #
      CheckCall [npm, Some ''install'', Some ''-g'', Some ''yarn''] (root_dir E) # rest"
proof -
  let ?loop = "for_each EXAMPLES (copy_example E)"
  obtain npm r1 where 1: "trace (snd (examples_chain E w)) = trace w @
      Print ''Building lumino examples'' #
      CheckCall [npm, Some ''install'', Some ''-g'', Some ''yarn''] (root_dir E) # r1"
    using examples_chain_head by blast
  obtain r2 where 2: "trace (snd (then_p (examples_chain E) ?loop w)) =
      trace (snd (examples_chain E w)) @ r2"
    using then_p_extends [OF emits_all_for_each_copy] by blast
  have 3: "snd (examples_build E w) = snd (then_p (examples_chain E) ?loop w)"
    by (simp add: examples_build_run [OF assms])
  obtain r3 where 4: "trace (snd (then_p (examples_build E) (examples_stage E out_dir) w)) =
      trace (snd (examples_build E w)) @ r3"
    using then_p_extends [OF emits_all_examples_stage] by blast
  show ?thesis
    by (simp add: build_examples_blocks new_events_def 1 2 3 4)
qed

text \<open>
  C10. Whether \<open>build_examples\<close> builds depends on one file only, the marker
  \<open>source/examples/accordionpanel/index.html\<close> of the first listed example. When it
  exists, the run makes no call of \<open>check_call\<close> and copies no example from the
  repository's example directories into the source tree, whatever else is there or
  missing; when it is absent, the run starts the build chain with the installation of
  the build tool.
\<close>

theorem build_examples_skip_decision:
  "(files w (normpath (example_index E)) \<noteq> None \<longrightarrow>
      filter is_check_call (new_events w (snd (build_examples E out_dir w))) = []
      \<and> (\<forall>example. example_copy E example
             \<notin> set (new_events w (snd (build_examples E out_dir w)))))
   \<and> (files w (normpath (example_index E)) = None \<longrightarrow>
      (\<exists>npm rest. new_events w (snd (build_examples E out_dir w)) =
         Print ''Building lumino examples'' #
         CheckCall [npm, Some ''install'', Some ''-g'', Some ''yarn''] (root_dir E) # rest))"
proof (intro conjI impI)
  assume present: "files w (normpath (example_index E)) \<noteq> None"
  let ?P = "\<lambda>ev. \<not> is_check_call ev \<and> (\<forall>example. ev \<noteq> example_copy E example)"
  have "emits ?P (then_p (print ''already have examples'') (examples_stage E out_dir))"
    by (intro emits_then emits_print emits_examples_stage)
      (simp_all add: example_copy_def examples_dir_def example_source_def root_dir_def
         docs_dir_def osp_join_def pardir_def)
  then have all: "list_all ?P (new_events w (snd (build_examples E out_dir w)))"
    unfolding build_examples_skip [OF present] by (rule emits_new_events)
  show "filter is_check_call (new_events w (snd (build_examples E out_dir w))) = []"
    using all by (simp add: list_all_iff filter_empty_conv)
  show "\<forall>example. example_copy E example \<notin> set (new_events w (snd (build_examples E out_dir w)))"
    using all by (auto simp: list_all_iff)
next
  assume "files w (normpath (example_index E)) = None"
  then show "\<exists>npm rest. new_events w (snd (build_examples E out_dir w)) =
         Print ''Building lumino examples'' #
         CheckCall [npm, Some ''install'', Some ''-g'', Some ''yarn''] (root_dir E) # rest"
    by (rule build_examples_run_head)
qed

theorem build_examples_skip_decision_witness:
  "files w_built (normpath (example_index E0)) \<noteq> None
   \<and> files w_built (normpath (example_dest E0 ''datagrid'')) = None
   \<and> files w_built (normpath (example_dest E0 ''dockpanel'')) = None
   \<and> filter is_check_call (new_events w_built (snd (build_examples E0 [''out''] w_built))) = []
   \<and> example_copy E0 ''datagrid''
        \<notin> set (new_events w_built (snd (build_examples E0 [''out''] w_built)))
   \<and> files w_fresh (normpath (example_index E0)) = None
   \<and> (\<exists>npm rest. new_events w_fresh (snd (build_examples E0 [''out''] w_fresh)) =
         Print ''Building lumino examples'' #
         CheckCall [npm, Some ''install'', Some ''-g'', Some ''yarn''] (root_dir E0) # rest)"
proof -
  have present: "files w_built (normpath (example_index E0)) \<noteq> None"
    by (simp add: eval_path fix_defs)
  have others: "files w_built (normpath (example_dest E0 ''datagrid'')) = None"
      "files w_built (normpath (example_dest E0 ''dockpanel'')) = None"
    by (simp_all add: eval_path fix_defs)
  have absent: "files w_fresh (normpath (example_index E0)) = None"
    by (simp add: eval_path fix_defs)
  show ?thesis
    using build_examples_skip_decision [of w_built E0 "[''out'']"]
      build_examples_skip_decision [of w_fresh E0 "[''out'']"]
      present others absent
    by blast
qed

end
